theory Spec2Isabelle
  imports Main "HOL-Library.Multiset"
begin

section \<open>Strings of the Go standard library, on ASCII byte strings\<close>

text \<open>
  A Go string is a byte sequence; it is modelled as a \<open>char list\<close>. The functions of
  package \<open>strings\<close> that the scheduler calls are modelled on ASCII input: \<open>ToLower\<close>
  maps A..Z only and white space is the six ASCII white-space bytes. Every schedule
  expression of the grammar is ASCII.
\<close>

definition isSpace :: "char \<Rightarrow> bool" where
  "isSpace c = (of_char c \<in> {9::int, 10, 11, 12, 13, 32})"

definition isDigit :: "char \<Rightarrow> bool" where
  "isDigit c = (48 \<le> (of_char c :: int) \<and> (of_char c :: int) \<le> 57)"

definition digitVal :: "char \<Rightarrow> int" where
  "digitVal c = of_char c - 48"

definition lowerChar :: "char \<Rightarrow> char" where
  "lowerChar c = (if 65 \<le> (of_char c :: int) \<and> (of_char c :: int) \<le> 90
                  then char_of ((of_char c :: int) + 32) else c)"

definition ToLower :: "string \<Rightarrow> string" where
  "ToLower s = map lowerChar s"

definition TrimSpace :: "string \<Rightarrow> string" where
  "TrimSpace s = rev (dropWhile isSpace (rev (dropWhile isSpace s)))"

definition HasPrefix :: "string \<Rightarrow> string \<Rightarrow> bool" where
  "HasPrefix s p = (take (length p) s = p)"

definition HasSuffix :: "string \<Rightarrow> string \<Rightarrow> bool" where
  "HasSuffix s p = (length p \<le> length s \<and> drop (length s - length p) s = p)"

definition TrimPrefix :: "string \<Rightarrow> string \<Rightarrow> string" where
  "TrimPrefix s p = (if HasPrefix s p then drop (length p) s else s)"

text \<open>\<open>Index s sep\<close> is the position of the first occurrence of \<open>sep\<close> in \<open>s\<close>.\<close>

fun Index :: "string \<Rightarrow> string \<Rightarrow> nat option" where
  "Index [] sep = (if sep = [] then Some 0 else None)"
| "Index (c # s) sep =
     (if HasPrefix (c # s) sep then Some 0 else map_option Suc (Index s sep))"

definition Contains :: "string \<Rightarrow> string \<Rightarrow> bool" where
  "Contains s sep = (Index s sep \<noteq> None)"

definition Cut :: "string \<Rightarrow> string \<Rightarrow> string \<times> string \<times> bool" where
  "Cut s sep = (case Index s sep of
                  Some i \<Rightarrow> (take i s, drop (i + length sep) s, True)
                | None \<Rightarrow> (s, [], False))"

text \<open>
  \<open>strings.Fields\<close>: the maximal runs of non-space bytes, in order. The accumulator
  holds the current run, reversed.
\<close>

fun fieldsFrom :: "string \<Rightarrow> string \<Rightarrow> string list" where
  "fieldsFrom cur [] = (if cur = [] then [] else [rev cur])"
| "fieldsFrom cur (c # s) =
     (if isSpace c then (if cur = [] then fieldsFrom [] s else rev cur # fieldsFrom [] s)
      else fieldsFrom (c # cur) s)"

definition Fields :: "string \<Rightarrow> string list" where
  "Fields s = fieldsFrom [] s"

text \<open>
  \<open>strings.SplitN(s, ":", 2)\<close>: at most two pieces, split at the first colon. The
  result is never empty.
\<close>

definition SplitN2 :: "string \<Rightarrow> string list" where
  "SplitN2 s = (case Index s '':'' of
                  Some i \<Rightarrow> [take i s, drop (i + 1) s]
                | None \<Rightarrow> [s])"

section \<open>Machine integers\<close>

text \<open>
  Go's \<open>int\<close>, \<open>int64\<close> and \<open>time.Duration\<close> are 64-bit two's complement. They are
  modelled as \<open>int\<close>; \<open>wrap64\<close> is written where an operation of the source can leave
  the range. Go's \<open>/\<close> truncates towards zero.
\<close>

definition maxInt64 :: int where
  "maxInt64 = 2 ^ 63 - 1"

definition minInt64 :: int where
  "minInt64 = - (2 ^ 63)"

definition wrap64 :: "int \<Rightarrow> int" where
  "wrap64 x = (x + 2 ^ 63) mod 2 ^ 64 - 2 ^ 63"

definition goDiv :: "int \<Rightarrow> int \<Rightarrow> int" where
  "goDiv a b = (if 0 \<le> a then a div b else - ((- a) div b))"

section \<open>Clock parsing\<close>

text \<open>
  \<open>fmt.Sscanf(s, "%d", &h)\<close> skips leading blanks (a newline is an error), accepts one
  sign, reads the longest run of the bytes \<open>0123456789_\<close> and hands the token to
  \<open>strconv.ParseInt(tok, 10, 64)\<close>, which rejects an empty digit string, an underscore
  and a value outside 64 bits. On any error the variable keeps its zero value. The
  source discards the error, so \<open>scanInt\<close> returns the value left in the variable.
\<close>

fun decimal :: "int \<Rightarrow> string \<Rightarrow> int" where
  "decimal acc [] = acc"
| "decimal acc (c # s) = decimal (acc * 10 + digitVal c) s"

definition scanInt :: "string \<Rightarrow> int" where
  "scanInt s =
     (let s1 = dropWhile (\<lambda>c. isSpace c \<and> c \<noteq> CHR 0x0A) s in
      case s1 of
        [] \<Rightarrow> 0
      | c # rest \<Rightarrow>
          if c = CHR 0x0A then 0
          else
            let neg = (c = CHR ''-'');
                s2 = (if c = CHR ''-'' \<or> c = CHR ''+'' then rest else s1);
                tok = takeWhile (\<lambda>d. isDigit d \<or> d = CHR ''_'') s2
            in if tok = [] \<or> CHR ''_'' \<in> set tok then 0
               else
                 let v = (if neg then - decimal 0 tok else decimal 0 tok)
                 in if v < minInt64 \<or> maxInt64 < v then 0 else v)"

definition parseHH :: "string \<Rightarrow> int" where
  "parseHH hhmm =
     (let parts = SplitN2 hhmm in
      if length parts = 0 then 0
      else
        let h = scanInt (parts ! 0);
            h1 = (if h < 0 then 0 else h);
            h2 = (if h1 > 23 then 23 else h1)
        in h2)"

definition parseMM :: "string \<Rightarrow> int" where
  "parseMM hhmm =
     (let parts = SplitN2 hhmm in
      if length parts < 2 then 0
      else
        let m = scanInt (parts ! 1);
            m1 = (if m < 0 then 0 else m);
            m2 = (if m1 > 59 then 59 else m1)
        in m2)"

section \<open>Errors\<close>

text \<open>
  Every error return of the scheduler is a value. \<open>Panic\<close> stands for a Go run-time
  panic (an index out of range, \<open>rand.Int63n\<close> on a non-positive bound).
\<close>

datatype error =
    InvalidDuration string
  | MissingUnit string
  | UnknownUnit string string
  | MissingTime
  | UnknownTZ string
  | MissingTimeAfterStartingAt
  | Unsupported string
  | Panic

section \<open>Durations: \<open>time.ParseDuration\<close> and \<open>parseDur\<close>\<close>

text \<open>
  \<open>time.ParseDuration\<close> reads \<open>[-+]?([0-9]*(\.[0-9]*)?[a-z]+)+\<close> into nanoseconds,
  accumulating in an unsigned 64-bit integer (an \<open>int\<close> of the model, reduced modulo
  \<open>2 ^ 64\<close> where the source can wrap) and checking for overflow at every step.
  The contribution of a fractional part is computed by the library in \<open>float64\<close>; it is
  the parameter \<open>fr\<close> (fraction digits, unit, scale) of the model.
\<close>

definition Second :: int where "Second = 1000000000"
definition Minute :: int where "Minute = 60 * Second"
definition Hour :: int where "Hour = 60 * Minute"

definition unitMap :: "string \<Rightarrow> int option" where
  "unitMap u =
     (if u = ''ns'' then Some 1
      else if u = ''us'' then Some 1000
      else if u = [CHR 0xC2, CHR 0xB5, CHR ''s''] then Some 1000
      else if u = [CHR 0xCE, CHR 0xBC, CHR ''s''] then Some 1000
      else if u = ''ms'' then Some 1000000
      else if u = ''s'' then Some 1000000000
      else if u = ''m'' then Some 60000000000
      else if u = ''h'' then Some 3600000000000
      else None)"

fun leadingInt :: "int \<Rightarrow> string \<Rightarrow> (int \<times> string) option" where
  "leadingInt x [] = Some (x, [])"
| "leadingInt x (c # s) =
     (if \<not> isDigit c then Some (x, c # s)
      else if x > 2 ^ 63 div 10 then None
      else if x * 10 + digitVal c > 2 ^ 63 then None
      else leadingInt (x * 10 + digitVal c) s)"

fun leadingFraction :: "int \<Rightarrow> int \<Rightarrow> bool \<Rightarrow> string \<Rightarrow> int \<times> int \<times> string" where
  "leadingFraction x scale overflow [] = (x, scale, [])"
| "leadingFraction x scale overflow (c # s) =
     (if \<not> isDigit c then (x, scale, c # s)
      else if overflow then leadingFraction x scale True s
      else if x > (2 ^ 63 - 1) div 10 then leadingFraction x scale True s
      else if x * 10 + digitVal c > 2 ^ 63 then leadingFraction x scale True s
      else leadingFraction (x * 10 + digitVal c) (scale * 10) False s)"

definition isNumberByte :: "char \<Rightarrow> bool" where
  "isNumberByte c = (c = CHR ''.'' \<or> isDigit c)"

text \<open>
  One turn of the loop of \<open>ParseDuration\<close>: a number, an optional fraction and a unit.
  The result is the value of the segment in nanoseconds and the rest of the input.
\<close>

definition durSegment ::
  "(int \<Rightarrow> int \<Rightarrow> int \<Rightarrow> int) \<Rightarrow> string \<Rightarrow> string \<Rightarrow> error + (int \<times> string)" where
  "durSegment fr orig s =
     (if \<not> isNumberByte (hd s) then Inl (InvalidDuration orig)
      else case leadingInt 0 s of
        None \<Rightarrow> Inl (InvalidDuration orig)
      | Some (v, s1) \<Rightarrow>
          let pre = (length s \<noteq> length s1);
              hasDot = (s1 \<noteq> [] \<and> hd s1 = CHR ''.'');
              fs = (if hasDot then leadingFraction 0 1 False (tl s1) else (0, 1, s1));
              f = fst fs;
              scale = fst (snd fs);
              s2 = snd (snd fs);
              post = (hasDot \<and> length (tl s1) \<noteq> length s2)
          in if \<not> pre \<and> \<not> post then Inl (InvalidDuration orig)
             else
               let u = takeWhile (\<lambda>c. \<not> isNumberByte c) s2;
                   s3 = dropWhile (\<lambda>c. \<not> isNumberByte c) s2
               in if u = [] then Inl (MissingUnit orig)
                  else case unitMap u of
                    None \<Rightarrow> Inl (UnknownUnit u orig)
                  | Some unit \<Rightarrow>
                      if v > 2 ^ 63 div unit then Inl (InvalidDuration orig)
                      else if f > 0
                      then (let v2 = (v * unit + fr f unit scale) mod 2 ^ 64
                            in if v2 > 2 ^ 63 then Inl (InvalidDuration orig)
                               else Inr (v2, s3))
                      else Inr (v * unit, s3))"

lemma leadingInt_length: "leadingInt x s = Some (v, r) \<Longrightarrow> length r \<le> length s"
  by (induction x s rule: leadingInt.induct) (auto split: if_splits)

lemma leadingFraction_length: "length (snd (snd (leadingFraction x sc ov s))) \<le> length s"
  by (induction x sc ov s rule: leadingFraction.induct) (simp_all add: le_SucI)

lemma durSegment_length:
  assumes "durSegment fr orig s = Inr r"
  shows "length (snd r) < length s"
proof -
  from assms obtain v s1 where li: "leadingInt 0 s = Some (v, s1)"
    by (auto simp: durSegment_def split: if_splits option.splits)
  define s2 where
    "s2 = snd (snd (if s1 \<noteq> [] \<and> hd s1 = CHR ''.''
                    then leadingFraction 0 1 False (tl s1) else (0, 1, s1)))"
  have a: "length s1 \<le> length s"
    using li by (rule leadingInt_length)
  have "length s2 \<le> length s1"
    using leadingFraction_length [of 0 1 False "tl s1"] by (auto simp: s2_def)
  with a have b: "length s2 \<le> length s"
    by simp
  have u: "takeWhile (\<lambda>c. \<not> isNumberByte c) s2 \<noteq> []"
    and r: "snd r = dropWhile (\<lambda>c. \<not> isNumberByte c) s2"
    using assms li
    by (auto simp: durSegment_def Let_def s2_def split: if_splits option.splits)
  have "length (takeWhile (\<lambda>c. \<not> isNumberByte c) s2)
          + length (dropWhile (\<lambda>c. \<not> isNumberByte c) s2) = length s2"
    by (metis length_append takeWhile_dropWhile_id)
  moreover have "0 < length (takeWhile (\<lambda>c. \<not> isNumberByte c) s2)"
    using u by simp
  ultimately have "length (dropWhile (\<lambda>c. \<not> isNumberByte c) s2) < length s"
    using b by linarith
  then show ?thesis
    by (simp add: r)
qed

function durLoop ::
  "(int \<Rightarrow> int \<Rightarrow> int \<Rightarrow> int) \<Rightarrow> string \<Rightarrow> int \<Rightarrow> string \<Rightarrow> error + int" where
  "durLoop fr orig d s =
     (if s = [] then Inr d
      else case durSegment fr orig s of
        Inl e \<Rightarrow> Inl e
      | Inr r \<Rightarrow>
          if (d + fst r) mod 2 ^ 64 > 2 ^ 63 then Inl (InvalidDuration orig)
          else durLoop fr orig ((d + fst r) mod 2 ^ 64) (snd r))"
  by pat_completeness auto
termination
  by (relation "measure (\<lambda>(fr, orig, d, s). length s)") (auto dest: durSegment_length)

declare durLoop.simps [simp del]

definition ParseDuration :: "(int \<Rightarrow> int \<Rightarrow> int \<Rightarrow> int) \<Rightarrow> string \<Rightarrow> error + int" where
  "ParseDuration fr orig =
     (let signed = (orig \<noteq> [] \<and> (hd orig = CHR ''-'' \<or> hd orig = CHR ''+''));
          neg = (orig \<noteq> [] \<and> hd orig = CHR ''-'');
          s = (if signed then tl orig else orig)
      in if s = ''0'' then Inr 0
         else if s = [] then Inl (InvalidDuration orig)
         else case durLoop fr orig 0 s of
           Inl e \<Rightarrow> Inl e
         | Inr d \<Rightarrow>
             if neg then Inr (wrap64 (- d))
             else if d > 2 ^ 63 - 1 then Inl (InvalidDuration orig)
             else Inr d)"

text \<open>
  \<open>parseDur\<close> of the scheduler. \<open>s[len(s)-1]\<close> panics on the empty string. The unit
  \<open>d\<close> is not a unit of \<open>ParseDuration\<close>; the source retries with \<open>h\<close> and multiplies
  by 24 in 64-bit arithmetic.
\<close>

definition parseDur :: "(int \<Rightarrow> int \<Rightarrow> int \<Rightarrow> int) \<Rightarrow> string \<Rightarrow> error + int" where
  "parseDur fr s0 =
     (let s = TrimSpace s0 in
      if s = [] then Inl Panic
      else
        let unit = last s; val = butlast s in
        case ParseDuration fr (val @ [unit]) of
          Inr n \<Rightarrow> Inr n
        | Inl err \<Rightarrow>
            if unit = CHR ''d''
            then (case ParseDuration fr (val @ ''h'') of
                    Inl err2 \<Rightarrow> Inl err2
                  | Inr h \<Rightarrow> Inr (wrap64 (h * 24)))
            else Inl err)"

section \<open>Instants and time zones\<close>

text \<open>
  A \<open>time.Location\<close> is a zone name, the offset (seconds east of UTC) in force before
  the first transition, and the transitions in ascending order, each with the instant
  (Unix seconds) from which its offset applies. \<open>lookup\<close> returns the offset in force
  at an instant and the half-open period \<open>[start, end)\<close> of that offset, with the
  library's sentinels for an unbounded period.
\<close>

datatype location = Location (zoneName: string) (zoneOffset: int) (zoneTx: "(int \<times> int) list")

fun lookupTx :: "(int \<times> int) list \<Rightarrow> int \<Rightarrow> int \<Rightarrow> int \<Rightarrow> int \<times> int \<times> int" where
  "lookupTx [] off start sec = (off, start, maxInt64)"
| "lookupTx ((w, off') # tx) off start sec =
     (if sec < w then (off, start, w) else lookupTx tx off' w sec)"

definition lookup :: "location \<Rightarrow> int \<Rightarrow> int \<times> int \<times> int" where
  "lookup l sec = lookupTx (zoneTx l) (zoneOffset l) minInt64 sec"

definition UTC :: location where
  "UTC = Location ''UTC'' 0 []"

text \<open>
  A \<open>time.Time\<close> is an instant, in nanoseconds since the Unix epoch, with the location
  it is displayed in. The instant is an unbounded integer: the range of \<open>time.Time\<close>
  (hundreds of billions of years) is not modelled, nor is the monotonic clock reading.
\<close>

record Time =
  wall :: int
  zone :: location

definition unixSec :: "Time \<Rightarrow> int" where
  "unixSec t = wall t div 1000000000"

definition In :: "Time \<Rightarrow> location \<Rightarrow> Time" where
  "In t l = t\<lparr>zone := l\<rparr>"

definition After :: "Time \<Rightarrow> Time \<Rightarrow> bool" where
  "After t u = (wall t > wall u)"

definition Add :: "Time \<Rightarrow> int \<Rightarrow> Time" where
  "Add t d = t\<lparr>wall := wall t + d\<rparr>"

text \<open>
  The calendar date of a time in its zone is represented by its day number (days since
  1970-01-01): \<open>Year()\<close>, \<open>Month()\<close> and \<open>Day()\<close> together are \<open>localDay\<close>, and
  \<open>time.Date\<close> takes the day number back. Day 0 was a Thursday; Sunday is weekday 0.
\<close>

definition localSec :: "Time \<Rightarrow> int" where
  "localSec t = unixSec t + fst (lookup (zone t) (unixSec t))"

definition localDay :: "Time \<Rightarrow> int" where
  "localDay t = localSec t div 86400"

definition Weekday :: "Time \<Rightarrow> int" where
  "Weekday t = (localDay t + 4) mod 7"

text \<open>
  \<open>time.Date(y, m, d, hour, min, 0, 0, loc)\<close>: the wall-clock reading is taken as UTC
  first, then shifted by the offset that the zone has there, looked up a second time
  when the shifted instant falls outside the period of the first offset.
\<close>

definition Date :: "int \<Rightarrow> int \<Rightarrow> int \<Rightarrow> location \<Rightarrow> Time" where
  "Date day hour minute l =
     (let unix = day * 86400 + hour * 3600 + minute * 60;
          z = lookup l unix;
          offset = fst z;
          start = fst (snd z);
          end = snd (snd z);
          unix' = (if offset \<noteq> 0
                   then (let utc = unix - offset;
                             offset' = (if utc < start \<or> utc \<ge> end
                                        then fst (lookup l utc) else offset)
                         in unix - offset')
                   else unix)
      in \<lparr>wall = unix' * 1000000000, zone = l\<rparr>)"

section \<open>The schedule calculator\<close>

text \<open>
  The host supplies the local zone, the zone database behind \<open>time.LoadLocation\<close>
  (\<open>None\<close> is its error) and the floating-point fraction of \<open>ParseDuration\<close>.
\<close>

record host =
  Local :: location
  LoadLocation :: "string \<Rightarrow> location option"
  fracNano :: "int \<Rightarrow> int \<Rightarrow> int \<Rightarrow> int"

text \<open>
  The two loops of the calculator have no bound in the source, so they are partial
  functions: \<open>None\<close> is a loop that never leaves.
\<close>

partial_function (option) weekdayLoop :: "Time \<Rightarrow> Time option" where
  "weekdayLoop cand =
     (if 1 \<le> Weekday cand \<and> Weekday cand \<le> 5 then Some cand
      else weekdayLoop (Add cand (24 * Hour)))"

definition nextAtTime :: "Time \<Rightarrow> string \<Rightarrow> location \<Rightarrow> bool \<Rightarrow> Time option" where
  "nextAtTime from hhmm l weekdayOnly =
     (let h = parseHH hhmm;
          m = parseMM hhmm;
          in' = In from l;
          cand = Date (localDay in') h m l;
          cand1 = (if \<not> After cand in' then Add cand (24 * Hour) else cand)
      in map_option (\<lambda>c. In c (zone from))
           (if weekdayOnly then weekdayLoop cand1 else Some cand1))"

partial_function (option) anchorLoop :: "int \<Rightarrow> Time \<Rightarrow> Time \<Rightarrow> Time option" where
  "anchorLoop d lim t = (if After t lim then Some t else anchorLoop d lim (Add t d))"

declare weekdayLoop.simps [code]
declare anchorLoop.simps [code]

definition isIntervalShape :: "string \<Rightarrow> bool" where
  "isIntervalShape l =
     (HasPrefix l ''every ''
      \<and> (HasSuffix l ''s'' \<or> HasSuffix l ''m'' \<or> HasSuffix l ''h'' \<or> HasSuffix l ''d'')
      \<and> \<not> Contains l '' at '')"

definition isClockShape :: "string \<Rightarrow> bool" where
  "isClockShape l =
     (HasPrefix l ''at '' \<or> HasPrefix l ''every day at ''
      \<or> HasPrefix l ''every weekday at '')"

definition isAnchoredShape :: "string \<Rightarrow> bool" where
  "isAnchoredShape l = (HasPrefix l ''every '' \<and> Contains l '' starting at '')"

definition NextRun :: "host \<Rightarrow> string \<Rightarrow> Time \<Rightarrow> (error + Time) option" where
  "NextRun H expr0 from =
     (let expr = TrimSpace expr0; l = ToLower expr in
      if isIntervalShape l
      then (case parseDur (fracNano H) (TrimPrefix l ''every '') of
              Inl err \<Rightarrow> Some (Inl err)
            | Inr d \<Rightarrow> Some (Inr (Add from d)))
      else if isClockShape l
      then (let weekdayOnly = HasPrefix l ''every weekday at '';
                l1 = (if HasPrefix l ''every weekday at '' then TrimPrefix l ''every weekday at ''
                      else if HasPrefix l ''every day at '' then TrimPrefix l ''every day at ''
                      else TrimPrefix l ''at '');
                parts = Fields l1
            in if length parts = 0 then Some (Inl MissingTime)
               else if length parts > 1
               then (case LoadLocation H (parts ! 1) of
                       None \<Rightarrow> Some (Inl (UnknownTZ (parts ! 1)))
                     | Some lo \<Rightarrow> map_option Inr (nextAtTime from (parts ! 0) lo weekdayOnly))
               else map_option Inr (nextAtTime from (parts ! 0) (Local H) weekdayOnly))
      else if isAnchoredShape l
      then (let c = Cut l '' starting at ''; before_part = fst c; after_part = fst (snd c) in
            case parseDur (fracNano H) (TrimPrefix before_part ''every '') of
              Inl err \<Rightarrow> Some (Inl err)
            | Inr d \<Rightarrow>
                let parts = Fields after_part in
                if length parts = 0 then Some (Inl MissingTimeAfterStartingAt)
                else
                  let hhmm = parts ! 0;
                      l2 = (if length parts > 1
                            then (case LoadLocation H (parts ! 1) of
                                    Some lo \<Rightarrow> lo | None \<Rightarrow> Local H)
                            else Local H);
                      base = Date (localDay (In from l2)) (parseHH hhmm) (parseMM hhmm) l2
                  in map_option (\<lambda>t. Inr (In t (zone from))) (anchorLoop d (In from l2) base))
      else Some (Inl (Unsupported expr)))"

section \<open>Jobs\<close>

text \<open>
  \<open>dsl.Job\<close>. The environment map is the list of its entries, keys distinct, in the
  order in which \<open>range\<close> visits them.
\<close>

record job =
  Name :: string
  Schedule :: string
  Run :: string
  RetryN :: int
  BackoffA :: int
  BackoffB :: int
  Timeout :: int
  Jitter :: int
  Overlap :: string
  Env :: "(string \<times> string) list"

section \<open>The executor\<close>













text \<open>
  A context is the instant at which it is done (\<open>None\<close>: never). A command either
  fails to start or runs for a duration and exits with or without an error.
  \<open>RunShell\<close> returns at the earliest of: the context is done, the command exits,
  the guard of 24 hours expires; when two of them fall on the same instant the first
  in this order is taken. \<open>Cmd.Start\<close> fails at once on a context that is already
  done. The result is the instant of the return and whether the error is nil.
\<close>

type_synonym ctx = "int option"

definition doneBy :: "ctx \<Rightarrow> int \<Rightarrow> bool" where
  "doneBy c t = (case c of None \<Rightarrow> False | Some dl \<Rightarrow> dl \<le> t)"

definition WithTimeout :: "ctx \<Rightarrow> int \<Rightarrow> int \<Rightarrow> ctx" where
  "WithTimeout parent now d =
     (case parent of None \<Rightarrow> Some (now + d) | Some dl \<Rightarrow> Some (min dl (now + d)))"

datatype behaviour = StartFails | Runs int bool

definition guarded :: "int \<Rightarrow> int \<Rightarrow> bool \<Rightarrow> int \<times> bool" where
  "guarded now dur ok = (if dur \<le> 24 * Hour then (now + dur, ok) else (now + 24 * Hour, False))"

definition RunShell :: "ctx \<Rightarrow> int \<Rightarrow> behaviour \<Rightarrow> int \<times> bool" where
  "RunShell c now b =
     (case b of
        StartFails \<Rightarrow> (now, False)
      | Runs dur ok \<Rightarrow>
          (case c of
             None \<Rightarrow> guarded now dur ok
           | Some dl \<Rightarrow>
               if dl \<le> now then (now, False)
               else if dl \<le> now + min dur (24 * Hour) then (dl, False)
               else guarded now dur ok))"

section \<open>The runner\<close>

text \<open>
  The surroundings of one invocation: what the command does at each call of
  \<open>RunShell\<close>, the raw 63-bit value that \<open>rand.Int63n\<close> reduces at each call, and the
  case that \<open>select\<close> takes when the context and the timer are ready at the same
  instant.
\<close>

record world =
  cmds :: "nat \<Rightarrow> behaviour"
  draws :: "nat \<Rightarrow> int"
  pickDone :: "nat \<Rightarrow> bool"

datatype outcome = Succeeded | Abandoned | Stopped | Panicked

text \<open>\<open>rand.Int63n(n)\<close> panics when \<open>n \<le> 0\<close> and otherwise reduces a raw value modulo \<open>n\<close>.\<close>

definition Int63n :: "int \<Rightarrow> int \<Rightarrow> error + int" where
  "Int63n raw n = (if n \<le> 0 then Inl Panic else Inr (raw mod n))"

definition backoff :: "int \<Rightarrow> int \<Rightarrow> int \<Rightarrow> int" where
  "backoff backoffMin backoffMax attempt =
     (let bo = wrap64 (2 ^ nat (min attempt 6) * backoffMin)
      in if bo > backoffMax then backoffMax else bo)"

definition sleepFor :: "int \<Rightarrow> int \<Rightarrow> error + int" where
  "sleepFor bo raw =
     (case Int63n raw (wrap64 (goDiv bo 4 + 1)) of
        Inl e \<Rightarrow> Inl e
      | Inr jitter \<Rightarrow> Inr (wrap64 (goDiv bo 2 + jitter)))"

text \<open>
  The \<open>select\<close> that ends an attempt: \<open>True\<close> when the case \<open>runCtx.Done()\<close> is taken.
  \<open>time.After(sleep)\<close> is ready at once when \<open>sleep \<le> 0\<close>.
\<close>

definition selectDone :: "ctx \<Rightarrow> int \<Rightarrow> int \<Rightarrow> bool \<Rightarrow> bool" where
  "selectDone runCtx now sleep tie =
     (let fire = now + max sleep 0 in
      case runCtx of
        None \<Rightarrow> False
      | Some dl \<Rightarrow> if max dl now < fire then True else if max dl now = fire then tie else False)"

text \<open>
  The loop of \<open>runOnce\<close>. \<open>attempt\<close> counts the failed attempts; the result is the
  outcome, the number of calls of \<open>RunShell\<close> and the instant of the return.
\<close>

function runLoop ::
  "job \<Rightarrow> ctx \<Rightarrow> world \<Rightarrow> int \<Rightarrow> int \<Rightarrow> int \<Rightarrow> int \<Rightarrow> outcome \<times> int \<times> int" where
  "runLoop j c W backoffMin backoffMax attempt now =
     (let runCtx = (if Timeout j > 0 then WithTimeout c now (Timeout j) else c);
          r = RunShell runCtx now (cmds W (nat attempt))
      in if snd r then (Succeeded, attempt + 1, fst r)
         else if attempt + 1 > RetryN j then (Abandoned, attempt + 1, fst r)
         else case sleepFor (backoff backoffMin backoffMax (attempt + 1)) (draws W (nat attempt)) of
           Inl e \<Rightarrow> (Panicked, attempt + 1, fst r)
         | Inr sleep \<Rightarrow>
             if selectDone runCtx (fst r) sleep (pickDone W (nat attempt))
             then (Stopped, attempt + 1, fst r)
             else runLoop j c W backoffMin backoffMax (attempt + 1) (fst r + max sleep 0))"
  by pat_completeness auto
termination
  by (relation "measure (\<lambda>(j, c, W, bmin, bmax, attempt, now). nat (RetryN j - attempt))") auto

declare runLoop.simps [simp del]

definition runOnce :: "job \<Rightarrow> ctx \<Rightarrow> world \<Rightarrow> int \<Rightarrow> outcome \<times> int \<times> int" where
  "runOnce j c W start =
     (if BackoffA j = 0 \<and> BackoffB j = 0
      then runLoop j c W (1 * Second) (30 * Second) 0 start
      else runLoop j c W (BackoffA j) (BackoffB j) 0 start)"

section \<open>The engine\<close>

text \<open>
  The busy map of the engine with the invocations in flight (the goroutines started by
  \<open>Run\<close> that have not yet run their deferred function) and the overlap lines logged.
  \<open>fire\<close> is the critical section of the loop for the job that is due, together with
  the \<open>go\<close> statement that follows it; \<open>complete\<close> is the deferred function of an
  invocation, run when \<open>runOnce\<close> has returned with some outcome.
\<close>

datatype logline = LoggedSkip string | LoggedNotImplemented string string

record engine =
  busy :: "string \<rightharpoonup> bool"
  inflight :: "string multiset"
  logged :: "logline list"

definition isBusy :: "engine \<Rightarrow> string \<Rightarrow> bool" where
  "isBusy e n = (case busy e n of None \<Rightarrow> False | Some b \<Rightarrow> b)"

definition NewEngine :: engine where
  "NewEngine = \<lparr>busy = Map.empty, inflight = {#}, logged = []\<rparr>"

definition fire :: "job \<Rightarrow> engine \<Rightarrow> engine" where
  "fire j e =
     (if isBusy e (Name j)
      then (if Overlap j = ''skip''
            then e\<lparr>logged := logged e @ [LoggedSkip (Name j)]\<rparr>
            else e\<lparr>logged := logged e @ [LoggedNotImplemented (Name j) (Overlap j)]\<rparr>)
      else e\<lparr>busy := (busy e)(Name j \<mapsto> True), inflight := inflight e + {#Name j#}\<rparr>)"

definition complete :: "string \<Rightarrow> outcome \<Rightarrow> engine \<Rightarrow> engine" where
  "complete n out e = e\<lparr>busy := (busy e)(n := None), inflight := inflight e - {#n#}\<rparr>"

inductive reachable :: "job list \<Rightarrow> engine \<Rightarrow> bool" for jobs :: "job list" where
  start: "reachable jobs NewEngine"
| fires: "reachable jobs e \<Longrightarrow> j \<in> set jobs \<Longrightarrow> reachable jobs (fire j e)"
| completes: "reachable jobs e \<Longrightarrow> n \<in># inflight e \<Longrightarrow> reachable jobs (complete n out e)"

section \<open>Concrete inputs\<close>

text \<open>
  A host in UTC with an empty zone database, and Saturday 2024-01-06 08:00:00 UTC
  (1704528000 seconds after the epoch).
\<close>

definition utcHost :: host where
  "utcHost = \<lparr>Local = UTC, LoadLocation = (\<lambda>name. None), fracNano = (\<lambda>f unit scale. 0)\<rparr>"

definition saturday :: Time where
  "saturday = \<lparr>wall = 1704528000 * Second, zone = UTC\<rparr>"

text \<open>
  A host whose local zone has the offsets of Europe/Paris in 2024: UTC+1, UTC+2 from
  2024-03-31 01:00 UTC (1711846800) and UTC+1 again from 2024-10-27 01:00 UTC
  (1729990800); and Saturday 2024-03-30 08:00 in that zone (07:00 UTC, 1711782000).
\<close>

definition paris :: location where
  "paris = Location ''Europe/Paris'' 3600 [(1711846800, 7200), (1729990800, 3600)]"

definition parisHost :: host where
  "parisHost = \<lparr>Local = paris, LoadLocation = (\<lambda>name. None),
     fracNano = (\<lambda>f unit scale. 0)\<rparr>"

definition parisSaturday :: Time where
  "parisSaturday = \<lparr>wall = 1711782000 * Second, zone = paris\<rparr>"

text \<open>Monday to Friday, as the weekday loop of \<open>nextAtTime\<close> tests it.\<close>

definition isWeekday :: "Time \<Rightarrow> bool" where
  "isWeekday t = (1 \<le> Weekday t \<and> Weekday t \<le> 5)"

text \<open>
  The units of a pure interval as the specification gives them: seconds, minutes,
  hours, and days of 24 hours.
\<close>

definition isUnit :: "char \<Rightarrow> bool" where
  "isUnit u = (u = CHR ''s'' \<or> u = CHR ''m'' \<or> u = CHR ''h'' \<or> u = CHR ''d'')"

definition unitNanos :: "char \<Rightarrow> int" where
  "unitNanos u =
     (if u = CHR ''s'' then Second
      else if u = CHR ''m'' then Minute
      else if u = CHR ''h'' then Hour
      else if u = CHR ''d'' then 24 * Hour
      else 0)"



text \<open>
  A job with a timeout of one second and three retries, whose command takes ten
  seconds; and the same job without a timeout, whose command fails after one second.
\<close>

definition timeoutJob :: job where
  "timeoutJob = \<lparr>Name = ''slow'', Schedule = ''every 5m'', Run = ''sleep 10'', RetryN = 3,
     BackoffA = 0, BackoffB = 0, Timeout = 1 * Second, Jitter = 0, Overlap = ''skip'',
     Env = []\<rparr>"

definition slowWorld :: world where
  "slowWorld = \<lparr>cmds = (\<lambda>k. Runs (10 * Second) True), draws = (\<lambda>k. 0),
     pickDone = (\<lambda>k. False)\<rparr>"

definition failingWorld :: world where
  "failingWorld = \<lparr>cmds = (\<lambda>k. Runs (1 * Second) False), draws = (\<lambda>k. 0),
     pickDone = (\<lambda>k. False)\<rparr>"

section \<open>Properties of clock parsing\<close>

lemma parseHH_example: "parseHH ''08:30'' = 8"
  by (simp add: parseHH_def SplitN2_def HasPrefix_def scanInt_def isSpace_def isDigit_def
      digitVal_def minInt64_def maxInt64_def)

lemma parseMM_example: "parseMM ''08:30'' = 30"
  by (simp add: parseMM_def SplitN2_def HasPrefix_def scanInt_def isSpace_def isDigit_def
      digitVal_def minInt64_def maxInt64_def)

lemma parseHH_out_of_range_example: "parseHH ''99:77'' = 23 \<and> parseMM ''99:77'' = 59"
  by (simp add: parseHH_def parseMM_def SplitN2_def HasPrefix_def scanInt_def isSpace_def
      isDigit_def digitVal_def minInt64_def maxInt64_def)

lemma digit_facts:
  assumes "isDigit c"
  shows "\<not> isSpace c" "lowerChar c = c" "0 \<le> digitVal c" "isNumberByte c"
    "c \<noteq> CHR ''-''" "c \<noteq> CHR ''+''" "c \<noteq> CHR ''a''"
  using assms by (auto simp: isDigit_def isSpace_def lowerChar_def digitVal_def isNumberByte_def)

lemma decimal_ge: "\<forall>c\<in>set ds. isDigit c \<Longrightarrow> 0 \<le> x \<Longrightarrow> x \<le> decimal x ds"
proof (induction ds arbitrary: x)
  case Nil
  then show ?case by simp
next
  case (Cons c ds)
  have "0 \<le> digitVal c" using Cons.prems by (simp add: digit_facts)
  then have "x \<le> x * 10 + digitVal c" using Cons.prems by simp
  moreover have "x * 10 + digitVal c \<le> decimal (x * 10 + digitVal c) ds"
    using Cons.prems \<open>0 \<le> digitVal c\<close> by (intro Cons.IH) simp_all
  ultimately show ?case by simp
qed

lemma HasPrefix_single: "HasPrefix (c # s) [d] = (c = d)"
  by (simp add: HasPrefix_def)

lemma Index_colon_takeWhile:
  "Index s '':'' = (if CHR '':'' \<in> set s then Some (length (takeWhile (\<lambda>c. c \<noteq> CHR '':'') s)) else None)"
  by (induction s) (simp_all add: HasPrefix_single)

lemma takeWhile_field:
  "CHR '':'' \<notin> set hh \<Longrightarrow> takeWhile (\<lambda>c. c \<noteq> CHR '':'') (hh @ CHR '':'' # rest) = hh"
  by (induction hh) auto

lemma dropWhile_field:
  "CHR '':'' \<notin> set hh \<Longrightarrow> dropWhile (\<lambda>c. c \<noteq> CHR '':'') (hh @ CHR '':'' # rest) = CHR '':'' # rest"
  by (induction hh) auto

lemma SplitN2_fields:
  "SplitN2 s = (if CHR '':'' \<in> set s
                then [takeWhile (\<lambda>c. c \<noteq> CHR '':'') s, tl (dropWhile (\<lambda>c. c \<noteq> CHR '':'') s)]
                else [s])"
proof (cases "CHR '':'' \<in> set s")
  case True
  let ?n = "length (takeWhile (\<lambda>c. c \<noteq> CHR '':'') s)"
  have "take ?n s = takeWhile (\<lambda>c. c \<noteq> CHR '':'') s"
    by (rule takeWhile_eq_take [symmetric])
  moreover have "tl (dropWhile (\<lambda>c. c \<noteq> CHR '':'') s) = tl (drop ?n s)"
    by (simp only: dropWhile_eq_drop [symmetric])
  then have "drop (?n + 1) s = tl (dropWhile (\<lambda>c. c \<noteq> CHR '':'') s)"
    by (simp only: tl_drop drop_Suc Suc_eq_plus1 [symmetric])
  ultimately show ?thesis
    using True by (simp add: SplitN2_def Index_colon_takeWhile)
next
  case False
  then show ?thesis
    by (simp add: SplitN2_def Index_colon_takeWhile)
qed

lemma takeWhile_no_colon: "CHR '':'' \<notin> set s \<Longrightarrow> takeWhile (\<lambda>c. c \<noteq> CHR '':'') s = s"
  by (induction s) auto

lemma parseHH_clamp:
  "parseHH s = max 0 (min 23 (scanInt (takeWhile (\<lambda>c. c \<noteq> CHR '':'') s)))"
  by (simp add: parseHH_def SplitN2_fields Let_def takeWhile_no_colon max_def min_def)

lemma parseMM_clamp:
  "parseMM s = (if CHR '':'' \<in> set s
                then max 0 (min 59 (scanInt (tl (dropWhile (\<lambda>c. c \<noteq> CHR '':'') s))))
                else 0)"
  by (simp add: parseMM_def SplitN2_fields Let_def max_def min_def)

lemma scanInt_digits:
  assumes "ds \<noteq> []" and "\<forall>c\<in>set ds. isDigit c" and "decimal 0 ds \<le> maxInt64"
  shows "scanInt ds = decimal 0 ds" and "scanInt (CHR ''-'' # ds) = - decimal 0 ds"
    and "scanInt (CHR ''+'' # ds) = decimal 0 ds"
proof -
  obtain c rest where ds: "ds = c # rest"
    using assms(1) by (cases ds) auto
  have c: "isDigit c"
    using assms(2) ds by simp
  have n0: "0 \<le> decimal 0 ds"
    using decimal_ge [of ds 0] assms(2) by simp
  have tok: "takeWhile (\<lambda>d. isDigit d \<or> d = CHR ''_'') ds = ds"
    using assms(2) by (intro takeWhile_eq_all_conv [THEN iffD2]) auto
  have us: "CHR ''_'' \<notin> set ds"
  proof
    assume "CHR ''_'' \<in> set ds"
    then have "isDigit CHR ''_''" using assms(2) by blast
    then show False by (simp add: isDigit_def)
  qed
  have sp: "\<not> isSpace c" "c \<noteq> CHR 0x0A" "c \<noteq> CHR ''-''" "c \<noteq> CHR ''+''"
    using c by (auto simp: isDigit_def isSpace_def)
  have m: "\<not> isSpace CHR ''-''" "\<not> isSpace CHR ''+''"
    by (simp_all add: isSpace_def)
  have d1: "dropWhile (\<lambda>c. isSpace c \<and> c \<noteq> CHR 0x0A) ds = ds"
    using sp(1) by (simp add: ds)
  have d2: "dropWhile (\<lambda>c. isSpace c \<and> c \<noteq> CHR 0x0A) (CHR ''-'' # ds) = CHR ''-'' # ds"
    "dropWhile (\<lambda>c. isSpace c \<and> c \<noteq> CHR 0x0A) (CHR ''+'' # ds) = CHR ''+'' # ds"
    using m by simp_all
  have rng: "\<not> decimal 0 ds < minInt64" "\<not> maxInt64 < decimal 0 ds"
    "\<not> - decimal 0 ds < minInt64" "\<not> maxInt64 < - decimal 0 ds"
    using n0 assms(3) by (simp_all add: minInt64_def maxInt64_def)
  have tk: "takeWhile (\<lambda>d. isDigit d \<or> d = CHR ''_'') (c # rest) = c # rest"
    using tok by (simp only: ds)
  have us': "CHR ''_'' \<notin> set (c # rest)"
    using us ds by simp
  have "scanInt (c # rest) = decimal 0 (c # rest)"
    using sp(2,3,4) us' rng [unfolded ds] unfolding scanInt_def d1 [unfolded ds] Let_def
    by (simp add: tk del: decimal.simps takeWhile.simps set_simps)
  then show "scanInt ds = decimal 0 ds"
    by (simp only: ds)
  show "scanInt (CHR ''-'' # ds) = - decimal 0 ds"
    using us rng assms(1) unfolding scanInt_def d2 Let_def
    by (simp add: tok)
  show "scanInt (CHR ''+'' # ds) = decimal 0 ds"
    using us rng assms(1) unfolding scanInt_def d2 Let_def
    by (simp add: tok)
qed

lemma digits_no_colon: "\<forall>c\<in>set ds. isDigit c \<Longrightarrow> CHR '':'' \<notin> set ds"
  by (auto simp: isDigit_def)

text \<open>
  Claim C9. Clock parsing never rejects its input: \<open>parseHH\<close> and \<open>parseMM\<close> have no
  error result and, for every string, return an hour in [0,23] and a minute in [0,59].
  The hour is the integer scanned from the text before the first colon and the minute
  the integer scanned from the text after it (0 when there is no colon), each clamped
  into its range. For a field \<open>HH:MM\<close> of two non-empty strings of decimal digits whose
  values fit in 64 bits the hour is \<open>min(HH, 23)\<close> and the minute \<open>min(MM, 59)\<close>, and a
  negative hour or minute becomes 0.
\<close>

theorem parse_clock_clamped:
  assumes "hh \<noteq> []" and "mm \<noteq> []"
    and "\<forall>c\<in>set hh. isDigit c" and "\<forall>c\<in>set mm. isDigit c"
    and "decimal 0 hh \<le> maxInt64" and "decimal 0 mm \<le> maxInt64"
  shows "0 \<le> parseHH s \<and> parseHH s \<le> 23 \<and> 0 \<le> parseMM s \<and> parseMM s \<le> 59
    \<and> parseHH s = max 0 (min 23 (scanInt (takeWhile (\<lambda>c. c \<noteq> CHR '':'') s)))
    \<and> parseMM s = (if CHR '':'' \<in> set s
                    then max 0 (min 59 (scanInt (tl (dropWhile (\<lambda>c. c \<noteq> CHR '':'') s))))
                    else 0)
    \<and> parseHH (hh @ '':'' @ mm) = min 23 (decimal 0 hh)
    \<and> parseMM (hh @ '':'' @ mm) = min 59 (decimal 0 mm)
    \<and> parseHH (''-'' @ hh @ '':'' @ mm) = 0
    \<and> parseMM (hh @ '':-'' @ mm) = 0"
proof -
  have r: "0 \<le> parseHH s \<and> parseHH s \<le> 23 \<and> 0 \<le> parseMM s \<and> parseMM s \<le> 59"
    by (simp add: parseHH_def parseMM_def Let_def)
  have nh: "0 \<le> decimal 0 hh" and nm: "0 \<le> decimal 0 mm"
    using decimal_ge [of hh 0] decimal_ge [of mm 0] assms(3,4) by simp_all
  have ch: "CHR '':'' \<notin> set hh"
    using assms(3) by (rule digits_no_colon)
  have th: "takeWhile (\<lambda>c. c \<noteq> CHR '':'') (hh @ '':'' @ mm) = hh"
    using ch by (simp add: takeWhile_field)
  have dh: "tl (dropWhile (\<lambda>c. c \<noteq> CHR '':'') (hh @ '':'' @ mm)) = mm"
    using ch by (simp add: dropWhile_field)
  have th': "takeWhile (\<lambda>c. c \<noteq> CHR '':'') (''-'' @ hh @ '':'' @ mm) = CHR ''-'' # hh"
    using ch by (simp add: takeWhile_field)
  have dh': "tl (dropWhile (\<lambda>c. c \<noteq> CHR '':'') (hh @ '':-'' @ mm)) = CHR ''-'' # mm"
    using ch by (simp add: dropWhile_field)
  have a: "parseHH (hh @ '':'' @ mm) = min 23 (decimal 0 hh)"
    using nh th scanInt_digits(1) [OF assms(1,3,5)] by (simp add: parseHH_clamp)
  have b: "parseMM (hh @ '':'' @ mm) = min 59 (decimal 0 mm)"
    using nm dh scanInt_digits(1) [OF assms(2,4,6)] by (simp add: parseMM_clamp)
  have c: "parseHH (''-'' @ hh @ '':'' @ mm) = 0"
    using nh th' scanInt_digits(2) [OF assms(1,3,5)] by (simp add: parseHH_clamp)
  have d: "parseMM (hh @ '':-'' @ mm) = 0"
    using nm dh' scanInt_digits(2) [OF assms(2,4,6)] by (simp add: parseMM_clamp)
  show ?thesis
    using r a b c d parseHH_clamp [of s] parseMM_clamp [of s] by blast
qed

theorem parse_clock_clamped_witness:
  "''99'' \<noteq> [] \<and> ''77'' \<noteq> [] \<and> isDigit CHR ''9'' \<and> isDigit CHR ''7''
   \<and> decimal 0 ''99'' \<le> maxInt64 \<and> decimal 0 ''77'' \<le> maxInt64
   \<and> parseHH ''99:77'' = 23 \<and> parseMM ''99:77'' = 59
   \<and> parseHH ''-99:77'' = 0 \<and> parseMM ''99:-77'' = 0
   \<and> parseHH ''08:30'' = 8 \<and> parseMM ''08:30'' = 30"
proof -
  have h: "''99'' \<noteq> []" "''77'' \<noteq> []" "\<forall>c\<in>set ''99''. isDigit c" "\<forall>c\<in>set ''77''. isDigit c"
    "decimal 0 ''99'' \<le> maxInt64" "decimal 0 ''77'' \<le> maxInt64"
    by (simp_all add: isDigit_def digitVal_def maxInt64_def)
  have g: "''08'' \<noteq> []" "''30'' \<noteq> []" "\<forall>c\<in>set ''08''. isDigit c" "\<forall>c\<in>set ''30''. isDigit c"
    "decimal 0 ''08'' \<le> maxInt64" "decimal 0 ''30'' \<le> maxInt64"
    by (simp_all add: isDigit_def digitVal_def maxInt64_def)
  have v: "decimal 0 ''99'' = 99" "decimal 0 ''77'' = 77" "decimal 0 ''08'' = 8" "decimal 0 ''30'' = 30"
    by (simp_all add: digitVal_def)
  show ?thesis
    using h(1,2,5,6) parse_clock_clamped [OF h, of "[]"] parse_clock_clamped [OF g, of "[]"]
    by (simp add: digitVal_def isDigit_def)
qed

section \<open>Properties of the executor\<close>












section \<open>Properties of the engine\<close>

lemma reachable_count:
  assumes "reachable jobs e"
  shows "count (inflight e) n = (if isBusy e n then 1 else 0)"
  using assms
proof (induction arbitrary: n rule: reachable.induct)
  case start
  show ?case by (simp add: NewEngine_def isBusy_def)
next
  case (fires e j)
  then show ?case
    by (simp add: fire_def isBusy_def)
next
  case (completes e m out)
  then show ?case
    by (simp add: complete_def isBusy_def)
qed

lemma reachable_invariant:
  assumes "reachable jobs e"
  shows "(\<forall>n. count (inflight e) n \<le> 1) \<and> (\<forall>n. isBusy e n \<longleftrightarrow> n \<in># inflight e)"
proof -
  have c: "count (inflight e) n = (if isBusy e n then 1 else 0)" for n
    using assms by (rule reachable_count)
  have "isBusy e n \<longleftrightarrow> n \<in># inflight e" for n
  proof (cases "isBusy e n")
    case True
    then have "count (inflight e) n \<noteq> 0"
      using c [of n] by simp
    then show ?thesis
      using True by (simp add: count_inI)
  next
    case False
    then have "count (inflight e) n = 0"
      using c [of n] by simp
    then show ?thesis
      using False by (simp only: not_in_iff [symmetric])
  qed
  moreover have "count (inflight e) n \<le> 1" for n
    using c [of n] by simp
  ultimately show ?thesis by blast
qed

text \<open>
  Claim C3. In every reachable state of the engine no job name has two invocations in
  flight, and a name is busy exactly while an invocation of it is in flight. When a
  job with overlap policy \<open>skip\<close> fires while its name is busy, no invocation starts,
  the busy map is unchanged and exactly one skip line is logged; when it fires while
  its name is free, one invocation starts and the name becomes busy. When an
  invocation completes, with whatever outcome, its name is no longer busy and no
  invocation of it is in flight.
\<close>

theorem skip_mutual_exclusion:
  assumes "reachable jobs e"
  shows "(\<forall>n. count (inflight e) n \<le> 1)
    \<and> (\<forall>n. isBusy e n \<longleftrightarrow> n \<in># inflight e)
    \<and> (\<forall>j. Overlap j = ''skip'' \<and> isBusy e (Name j) \<longrightarrow>
          inflight (fire j e) = inflight e \<and> busy (fire j e) = busy e
          \<and> logged (fire j e) = logged e @ [LoggedSkip (Name j)])
    \<and> (\<forall>j. \<not> isBusy e (Name j) \<longrightarrow>
          inflight (fire j e) = inflight e + {#Name j#} \<and> isBusy (fire j e) (Name j)
          \<and> logged (fire j e) = logged e)
    \<and> (\<forall>n out. n \<in># inflight e \<longrightarrow>
          \<not> isBusy (complete n out e) n \<and> n \<notin># inflight (complete n out e))"
proof -
  have inv: "(\<forall>n. count (inflight e) n \<le> 1) \<and> (\<forall>n. isBusy e n \<longleftrightarrow> n \<in># inflight e)"
    using assms by (rule reachable_invariant)
  have a: "\<forall>j. Overlap j = ''skip'' \<and> isBusy e (Name j) \<longrightarrow>
          inflight (fire j e) = inflight e \<and> busy (fire j e) = busy e
          \<and> logged (fire j e) = logged e @ [LoggedSkip (Name j)]"
    by (simp add: fire_def)
  have b: "\<forall>j. \<not> isBusy e (Name j) \<longrightarrow>
          inflight (fire j e) = inflight e + {#Name j#} \<and> isBusy (fire j e) (Name j)
          \<and> logged (fire j e) = logged e"
    by (simp add: fire_def isBusy_def)
  have c: "\<forall>n out. n \<in># inflight e \<longrightarrow>
          \<not> isBusy (complete n out e) n \<and> n \<notin># inflight (complete n out e)"
  proof (intro allI impI)
    fix n out assume "n \<in># inflight e"
    moreover have "count (inflight e) n \<le> 1" using inv by blast
    ultimately have "count (inflight e) n = 1"
      by (metis count_greater_eq_one_iff le_antisym)
    then have "count (inflight e - {#n#}) n = 0" by simp
    then show "\<not> isBusy (complete n out e) n \<and> n \<notin># inflight (complete n out e)"
      by (simp add: complete_def isBusy_def not_in_iff)
  qed
  from inv a b c show ?thesis by blast
qed

theorem skip_mutual_exclusion_witness:
  "reachable [timeoutJob] (fire timeoutJob NewEngine)
   \<and> count (inflight (fire timeoutJob NewEngine)) ''slow'' \<le> 1
   \<and> isBusy (fire timeoutJob NewEngine) ''slow''
   \<and> ''slow'' \<in># inflight (fire timeoutJob NewEngine)
   \<and> inflight (fire timeoutJob (fire timeoutJob NewEngine)) = inflight (fire timeoutJob NewEngine)
   \<and> logged (fire timeoutJob (fire timeoutJob NewEngine)) = [LoggedSkip ''slow'']
   \<and> \<not> isBusy (complete ''slow'' Abandoned (fire timeoutJob NewEngine)) ''slow''
   \<and> ''slow'' \<notin># inflight (complete ''slow'' Abandoned (fire timeoutJob NewEngine))"
proof -
  have r: "reachable [timeoutJob] (fire timeoutJob NewEngine)"
    by (rule reachable.fires [OF reachable.start]) simp
  have n: "Name timeoutJob = ''slow''" and o: "Overlap timeoutJob = ''skip''"
    by (simp_all add: timeoutJob_def)
  have b: "isBusy (fire timeoutJob NewEngine) ''slow''"
    by (simp add: fire_def NewEngine_def isBusy_def n)
  have l: "logged (fire timeoutJob NewEngine) = []"
    by (simp add: fire_def NewEngine_def isBusy_def n)
  note t = skip_mutual_exclusion [OF r]
  from t have t1: "count (inflight (fire timeoutJob NewEngine)) ''slow'' \<le> 1"
    by blast
  from t b have t2: "''slow'' \<in># inflight (fire timeoutJob NewEngine)"
    by blast
  from t have "Overlap timeoutJob = ''skip'' \<and> isBusy (fire timeoutJob NewEngine) (Name timeoutJob) \<longrightarrow>
      inflight (fire timeoutJob (fire timeoutJob NewEngine)) = inflight (fire timeoutJob NewEngine)
      \<and> busy (fire timeoutJob (fire timeoutJob NewEngine)) = busy (fire timeoutJob NewEngine)
      \<and> logged (fire timeoutJob (fire timeoutJob NewEngine))
          = logged (fire timeoutJob NewEngine) @ [LoggedSkip (Name timeoutJob)]"
    by blast
  with b n o l have t3:
    "inflight (fire timeoutJob (fire timeoutJob NewEngine)) = inflight (fire timeoutJob NewEngine)"
    "logged (fire timeoutJob (fire timeoutJob NewEngine)) = [LoggedSkip ''slow'']"
    by simp_all
  from t t2 have t4: "\<not> isBusy (complete ''slow'' Abandoned (fire timeoutJob NewEngine)) ''slow''
      \<and> ''slow'' \<notin># inflight (complete ''slow'' Abandoned (fire timeoutJob NewEngine))"
    by blast
  from r t1 b t2 t3 t4 show ?thesis by blast
qed

section \<open>Properties of the runner\<close>

lemma wrap64_id: "minInt64 \<le> x \<Longrightarrow> x \<le> maxInt64 \<Longrightarrow> wrap64 x = x"
  by (simp add: wrap64_def minInt64_def maxInt64_def)

lemma sleepFor_bounds:
  assumes "0 \<le> b" and "b \<le> maxInt64"
  shows "\<exists>sleep. sleepFor b raw = Inr sleep \<and> goDiv b 2 \<le> sleep \<and> sleep \<le> goDiv b 2 + goDiv b 4"
proof -
  have q: "goDiv b 4 = b div 4" and h: "goDiv b 2 = b div 2"
    using assms by (simp_all add: goDiv_def)
  have n: "wrap64 (b div 4 + 1) = b div 4 + 1"
    using assms by (intro wrap64_id) (simp_all add: minInt64_def maxInt64_def)
  have pos: "0 < b div 4 + 1"
    using assms by simp
  define jitter where "jitter = raw mod (b div 4 + 1)"
  have j: "0 \<le> jitter" "jitter \<le> b div 4"
    using pos by (simp_all add: jitter_def) (smt (verit) pos_mod_bound)
  have s: "wrap64 (b div 2 + jitter) = b div 2 + jitter"
    using assms j by (intro wrap64_id) (simp_all add: minInt64_def maxInt64_def)
  have "Int63n raw (b div 4 + 1) = Inr jitter"
    using pos by (simp add: Int63n_def jitter_def)
  then have "sleepFor b raw = Inr (b div 2 + jitter)"
    by (simp add: sleepFor_def q h n s)
  then show ?thesis
    using j by (simp add: q h)
qed

text \<open>
  Claim C4, as the code has it. For a failed attempt number \<open>attempt \<ge> 1\<close> and bounds
  \<open>0 \<le> backoffMin \<le> backoffMax\<close> such that \<open>backoffMin \<cdot> 2^min(attempt, 6)\<close> fits in 64
  bits, the base is \<open>min(backoffMin \<cdot> 2^min(attempt, 6), backoffMax)\<close> and, for every
  value drawn, the sleep lies in the closed interval \<open>[base/2, base/2 + base/4]\<close>.
\<close>

theorem backoff_sleep_bounds:
  assumes "1 \<le> attempt" and "0 \<le> backoffMin" and "backoffMin \<le> backoffMax"
    and "backoffMin * 2 ^ nat (min attempt 6) \<le> maxInt64"
  shows "backoff backoffMin backoffMax attempt = min (backoffMin * 2 ^ nat (min attempt 6)) backoffMax
    \<and> (\<exists>sleep. sleepFor (backoff backoffMin backoffMax attempt) raw = Inr sleep
          \<and> goDiv (backoff backoffMin backoffMax attempt) 2 \<le> sleep
          \<and> sleep \<le> goDiv (backoff backoffMin backoffMax attempt) 2
                       + goDiv (backoff backoffMin backoffMax attempt) 4)"
proof -
  define p where "p = backoffMin * 2 ^ nat (min attempt 6)"
  have p0: "0 \<le> p"
    using assms(2) by (simp add: p_def)
  have w: "wrap64 (2 ^ nat (min attempt 6) * backoffMin) = p"
    using p0 assms(4) by (simp add: p_def mult.commute wrap64_id minInt64_def)
  have b: "backoff backoffMin backoffMax attempt = min p backoffMax"
    unfolding backoff_def Let_def w by (simp add: min_def)
  have "0 \<le> min p backoffMax" and "min p backoffMax \<le> maxInt64"
    using p0 assms by (simp_all add: p_def)
  then show ?thesis
    using sleepFor_bounds [of "min p backoffMax" raw] by (simp add: b p_def)
qed

theorem backoff_sleep_bounds_witness:
  "(1::int) \<le> 1 \<and> (0::int) \<le> 5 * Second \<and> 5 * Second \<le> 30 * Second
   \<and> 5 * Second * 2 ^ nat (min 1 6) \<le> maxInt64
   \<and> backoff (5 * Second) (30 * Second) 1 = min (5 * Second * 2 ^ nat (min 1 6)) (30 * Second)
   \<and> (\<exists>sleep. sleepFor (backoff (5 * Second) (30 * Second) 1) 123456789012 = Inr sleep
          \<and> goDiv (backoff (5 * Second) (30 * Second) 1) 2 \<le> sleep
          \<and> sleep \<le> goDiv (backoff (5 * Second) (30 * Second) 1) 2
                       + goDiv (backoff (5 * Second) (30 * Second) 1) 4)"
proof -
  have h: "(1::int) \<le> 1" "(0::int) \<le> 5 * Second" "5 * Second \<le> 30 * Second"
    "5 * Second * 2 ^ nat (min 1 6) \<le> maxInt64"
    by (simp_all add: Second_def maxInt64_def)
  show ?thesis
    using h backoff_sleep_bounds [OF h, of 123456789012] by blast
qed

text \<open>
  Claim C4 as stated fails: with \<open>backoffMin = 5s\<close>, \<open>backoffMax = 30s\<close> and attempt 1
  the base is 10s, and when \<open>rand.Int63n(base/4 + 1)\<close> reduces the raw value
  2500000000 the jitter is \<open>base/4\<close> and the sleep is 7.5s, the upper endpoint.
\<close>

theorem backoff_sleep_counterexample:
  "backoff (5 * Second) (30 * Second) 1 = 10 * Second
   \<and> sleepFor (backoff (5 * Second) (30 * Second) 1) 2500000000 = Inr 7500000000
   \<and> \<not> (7500000000 < goDiv (10 * Second) 2 + goDiv (10 * Second) 4)"
  by code_simp

text \<open>
  With the default backoff, whenever the command outlives a timeout of at most 24
  hours and at least one retry is allowed, the invocation stops at the instant of the
  timeout after a single call of the executor, whatever the random draws.
\<close>

lemma default_backoff_first: "backoff Second (30 * Second) 1 = 2 * Second"
  by code_simp

lemma default_sleep_positive:
  "\<exists>sleep. sleepFor (2 * Second) raw = Inr sleep \<and> 0 < sleep"
proof -
  have b: "(0::int) \<le> 2 * Second" "2 * Second \<le> maxInt64"
    by (simp_all add: Second_def maxInt64_def)
  obtain sleep where s: "sleepFor (2 * Second) raw = Inr sleep" "goDiv (2 * Second) 2 \<le> sleep"
    using sleepFor_bounds [OF b, of raw] by blast
  moreover have "0 < goDiv (2 * Second) 2"
    by (simp add: goDiv_def Second_def)
  ultimately show ?thesis by auto
qed

lemma timeout_stops_invocation:
  assumes "0 < Timeout j" and "Timeout j \<le> 24 * Hour" and "1 \<le> RetryN j"
    and "BackoffA j = 0" and "BackoffB j = 0"
    and "cmds W 0 = Runs dur ok" and "Timeout j < dur"
  shows "runOnce j None W start = (Stopped, 1, start + Timeout j)"
proof -
  obtain sleep where s: "sleepFor (2 * Second) (draws W 0) = Inr sleep" "0 < sleep"
    using default_sleep_positive by blast
  have r: "RunShell (Some (start + Timeout j)) start (Runs dur ok) = (start + Timeout j, False)"
    using assms by (simp add: RunShell_def)
  have d: "selectDone (Some (start + Timeout j)) (start + Timeout j) sleep tie"  for tie
    using s(2) by (simp add: selectDone_def)
  show ?thesis
    using assms
    by (simp add: runOnce_def runLoop.simps [of j None W _ _ 0 start] WithTimeout_def r
        default_backoff_first s d Let_def)
qed

text \<open>
  Claim C2, at a job with a timeout of one second and three retries whose command
  takes ten seconds: the first attempt is cancelled by the timeout after one second
  and the invocation stops there, after a single call of the executor, although the
  attempt counter (1) does not exceed the retry count (3). The same job without a
  timeout, with a command that fails by itself, is retried until the fourth call.
\<close>

theorem timeout_attempt_not_retried:
  "runOnce timeoutJob None slowWorld 0 = (Stopped, 1, 1 * Second)
   \<and> runOnce (timeoutJob\<lparr>Timeout := 0\<rparr>) None failingWorld 0 = (Abandoned, 4, 11 * Second)"
  by code_simp

section \<open>Properties of the schedule calculator\<close>

text \<open>
  Claim C1, at the pure-interval expression \<open>every 0s\<close>: on every host and for every
  reference instant, \<open>NextRun\<close> returns the reference instant itself, which is not
  strictly after it.
\<close>

theorem interval_zero_not_after:
  "NextRun H ''every 0s'' from = Some (Inr from) \<and> \<not> After from from"
  by code_simp (simp add: After_def)

subsection \<open>Pure intervals\<close>

lemma unit_facts:
  assumes "isUnit u"
  shows "\<not> isSpace u" "lowerChar u = u" "\<not> isDigit u" "\<not> isNumberByte u" "u \<noteq> CHR ''a''"
  using assms by (auto simp: isUnit_def isDigit_def isSpace_def lowerChar_def isNumberByte_def)

lemma TrimSpace_id:
  assumes "s \<noteq> []" "\<not> isSpace (hd s)" "\<not> isSpace (last s)"
  shows "TrimSpace s = s"
proof -
  have a: "dropWhile isSpace s = s"
    using assms by (cases s) simp_all
  have "dropWhile isSpace (rev s) = rev s"
    using assms by (cases "rev s") (simp_all add: last_rev [symmetric] hd_rev)
  then show ?thesis
    by (simp add: TrimSpace_def a)
qed

lemma leadingInt_digits:
  assumes "\<forall>c\<in>set ds. isDigit c" and "\<not> isDigit u" and "0 \<le> x" and "decimal x ds \<le> 2 ^ 63"
  shows "leadingInt x (ds @ u # rest) = Some (decimal x ds, u # rest)"
  using assms
proof (induction ds arbitrary: x)
  case Nil
  then show ?case by simp
next
  case (Cons c ds)
  have d: "0 \<le> digitVal c" using Cons.prems by (simp add: digit_facts)
  have ge: "x * 10 + digitVal c \<le> decimal (x * 10 + digitVal c) ds"
    using Cons.prems d by (intro decimal_ge) simp_all
  then have b: "x * 10 + digitVal c \<le> 2 ^ 63"
    using Cons.prems by simp
  then have "x \<le> 2 ^ 63 div 10"
    using d by simp
  moreover have "leadingInt (x * 10 + digitVal c) (ds @ u # rest)
      = Some (decimal (x * 10 + digitVal c) ds, u # rest)"
    using Cons.prems d by (intro Cons.IH) simp_all
  ultimately show ?case
    using Cons.prems b by simp
qed


lemma durLoop_Nil: "durLoop fr orig d [] = Inr d"
  by (subst durLoop.simps) simp

lemma durLoop_step:
  assumes "s \<noteq> []" and "durSegment fr orig s = Inr (v, rest)"
    and "\<not> (d + v) mod 2 ^ 64 > 2 ^ 63"
  shows "durLoop fr orig d s = durLoop fr orig ((d + v) mod 2 ^ 64) rest"
  using assms by (subst durLoop.simps) simp

lemma durLoop_error:
  assumes "s \<noteq> []" and "durSegment fr orig s = Inl e"
  shows "durLoop fr orig d s = Inl e"
  using assms by (subst durLoop.simps) simp

lemma durSegment_digits_unit:
  assumes ds: "ds \<noteq> []" "\<forall>c\<in>set ds. isDigit c"
    and u: "\<not> isNumberByte u"
    and n: "decimal 0 ds \<le> 2 ^ 63"
  shows "durSegment fr orig (ds @ [u]) =
     (case unitMap [u] of
        None \<Rightarrow> Inl (UnknownUnit [u] orig)
      | Some unit \<Rightarrow>
          if decimal 0 ds > 2 ^ 63 div unit then Inl (InvalidDuration orig)
          else Inr (decimal 0 ds * unit, []))"
proof -
  have nd: "\<not> isDigit u" and dot: "u \<noteq> CHR ''.''"
    using u by (auto simp: isNumberByte_def)
  have li: "leadingInt 0 (ds @ [u]) = Some (decimal 0 ds, [u])"
    using leadingInt_digits [of ds u 0 "[]"] ds nd n by simp
  have h: "isNumberByte (hd ds)"
    using ds by (cases ds) (simp_all add: digit_facts)
  show ?thesis
    using ds(1) u dot by (simp add: durSegment_def li h Let_def split: option.splits)
qed

lemma ParseDuration_digits_unit:
  assumes ds: "ds \<noteq> []" "\<forall>c\<in>set ds. isDigit c"
    and u: "\<not> isNumberByte u"
    and m: "unitMap [u] = Some unit" "0 < unit"
    and n: "decimal 0 ds * unit \<le> maxInt64"
  shows "ParseDuration fr (ds @ [u]) = Inr (decimal 0 ds * unit)"
proof -
  let ?n = "decimal 0 ds"
  have n0: "0 \<le> ?n"
    using decimal_ge [of ds 0] ds by simp
  have "?n * 1 \<le> ?n * unit"
    using n0 m(2) by (intro mult_left_mono) simp_all
  then have n63: "?n \<le> 2 ^ 63"
    using n by (simp add: maxInt64_def)
  have "?n * unit < 2 ^ 63"
    using n by (simp add: maxInt64_def)
  then have "?n * unit div unit \<le> 2 ^ 63 div unit"
    using m(2) by (intro zdiv_mono1) simp_all
  then have q: "?n \<le> 2 ^ 63 div unit"
    using m(2) by simp
  have seg: "durSegment fr (ds @ [u]) (ds @ [u]) = Inr (?n * unit, [])"
    using durSegment_digits_unit [OF ds u n63, of fr "ds @ [u]"] q by (simp add: m)
  have p0: "0 \<le> ?n * unit"
    using n0 m(2) by simp
  have md: "(0 + ?n * unit) mod 2 ^ 64 = ?n * unit"
    using p0 n by (simp add: maxInt64_def)
  have lp: "durLoop fr (ds @ [u]) 0 (ds @ [u]) = Inr (?n * unit)"
    using durLoop_step [of "ds @ [u]" fr "ds @ [u]" "?n * unit" "[]" 0] seg md n
    by (simp add: durLoop_Nil maxInt64_def)
  have hd: "isDigit (hd (ds @ [u]))"
    using ds by (cases ds) simp_all
  have len: "ds @ [u] \<noteq> ''0''"
    using ds(1) by (cases ds) simp_all
  show ?thesis
    using hd len n
    by (simp add: ParseDuration_def Let_def lp digit_facts maxInt64_def)
qed


lemma ParseDuration_digits_unknown:
  assumes ds: "ds \<noteq> []" "\<forall>c\<in>set ds. isDigit c"
    and u: "\<not> isNumberByte u"
    and m: "unitMap [u] = None"
    and n: "decimal 0 ds \<le> 2 ^ 63"
  shows "ParseDuration fr (ds @ [u]) = Inl (UnknownUnit [u] (ds @ [u]))"
proof -
  have seg: "durSegment fr (ds @ [u]) (ds @ [u]) = Inl (UnknownUnit [u] (ds @ [u]))"
    using durSegment_digits_unit [OF ds u n, of fr "ds @ [u]"] by (simp add: m)
  have lp: "durLoop fr (ds @ [u]) 0 (ds @ [u]) = Inl (UnknownUnit [u] (ds @ [u]))"
    using durLoop_error [of "ds @ [u]" fr "ds @ [u]" _ 0] seg by simp
  have hd: "isDigit (hd (ds @ [u]))"
    using ds by (cases ds) simp_all
  have len: "ds @ [u] \<noteq> ''0''"
    using ds(1) by (cases ds) simp_all
  show ?thesis
    using hd len by (simp add: ParseDuration_def Let_def lp digit_facts)
qed

lemma unitMap_units:
  "unitMap ''s'' = Some 1000000000" "unitMap ''m'' = Some 60000000000"
  "unitMap ''h'' = Some 3600000000000" "unitMap ''d'' = None"
  by (simp_all add: unitMap_def)

lemma parseDur_interval:
  assumes ds: "ds \<noteq> []" "\<forall>c\<in>set ds. isDigit c"
    and u: "isUnit u"
    and n: "decimal 0 ds * unitNanos u \<le> maxInt64"
  shows "parseDur fr (ds @ [u]) = Inr (decimal 0 ds * unitNanos u)"
proof -
  let ?n = "decimal 0 ds"
  have n0: "0 \<le> ?n"
    using decimal_ge [of ds 0] ds by simp
  have hd: "\<not> isSpace (hd (ds @ [u]))"
    using ds by (cases ds) (simp_all add: digit_facts)
  have tr: "TrimSpace (ds @ [u]) = ds @ [u]"
    using hd u by (intro TrimSpace_id) (simp_all add: unit_facts)
  have nb: "\<not> isNumberByte u"
    using u by (simp add: unit_facts)
  consider "u = CHR ''s''" | "u = CHR ''m''" | "u = CHR ''h''" | "u = CHR ''d''"
    using u by (auto simp: isUnit_def)
  then show ?thesis
  proof cases
    case 1
    then have "ParseDuration fr (ds @ [u]) = Inr (?n * 1000000000)"
      using n by (intro ParseDuration_digits_unit [OF ds nb])
        (simp_all add: unitMap_units unitNanos_def Second_def)
    then show ?thesis
      using 1 tr by (simp add: parseDur_def Let_def unitNanos_def Second_def)
  next
    case 2
    then have "ParseDuration fr (ds @ [u]) = Inr (?n * 60000000000)"
      using n by (intro ParseDuration_digits_unit [OF ds nb])
        (simp_all add: unitMap_units unitNanos_def Minute_def Second_def)
    then show ?thesis
      using 2 tr by (simp add: parseDur_def Let_def unitNanos_def Minute_def Second_def)
  next
    case 3
    then have "ParseDuration fr (ds @ [u]) = Inr (?n * 3600000000000)"
      using n by (intro ParseDuration_digits_unit [OF ds nb])
        (simp_all add: unitMap_units unitNanos_def Hour_def Minute_def Second_def)
    then show ?thesis
      using 3 tr by (simp add: parseDur_def Let_def unitNanos_def Hour_def Minute_def Second_def)
  next
    case 4
    have big: "?n * 86400000000000 \<le> maxInt64"
      using n 4 by (simp add: unitNanos_def Hour_def Minute_def Second_def)
    have h: "?n * 3600000000000 \<le> maxInt64"
      using big n0 by simp
    have n63: "?n \<le> 2 ^ 63"
      using big n0 by (simp add: maxInt64_def)
    have a: "ParseDuration fr (ds @ ''d'') = Inl (UnknownUnit ''d'' (ds @ ''d''))"
      using nb 4 by (intro ParseDuration_digits_unknown [OF ds _ _ n63]) (simp_all add: unitMap_units)
    have hb: "\<not> isNumberByte CHR ''h''"
      by (simp add: isNumberByte_def isDigit_def)
    have b: "ParseDuration fr (ds @ ''h'') = Inr (?n * 3600000000000)"
      using h by (intro ParseDuration_digits_unit [OF ds hb]) (simp_all add: unitMap_units)
    have w: "wrap64 (?n * 3600000000000 * 24) = ?n * 86400000000000"
      using big n0 by (subst wrap64_id) (simp_all add: minInt64_def)
    show ?thesis
      using 4 tr a b w
      by (simp add: parseDur_def Let_def unitNanos_def Hour_def Minute_def Second_def)
  qed
qed

lemma Index_subset: "Index s sep = Some i \<Longrightarrow> set sep \<subseteq> set s"
proof (induction s arbitrary: i)
  case Nil
  then show ?case by (simp split: if_splits)
next
  case (Cons c s)
  show ?case
  proof (cases "HasPrefix (c # s) sep")
    case True
    then have "sep = take (length sep) (c # s)"
      by (simp add: HasPrefix_def)
    then have "set sep \<subseteq> set (c # s)"
      by (metis set_take_subset)
    then show ?thesis .
  next
    case False
    then obtain k where "Index s sep = Some k"
      using Cons.prems by auto
    then have "set sep \<subseteq> set s"
      by (rule Cons.IH)
    then show ?thesis by auto
  qed
qed

lemma interval_shape:
  assumes ds: "ds \<noteq> []" "\<forall>c\<in>set ds. isDigit c" and u: "isUnit u"
  shows "TrimSpace (''every '' @ ds @ [u]) = ''every '' @ ds @ [u]"
    and "ToLower (''every '' @ ds @ [u]) = ''every '' @ ds @ [u]"
    and "isIntervalShape (''every '' @ ds @ [u])"
    and "TrimPrefix (''every '' @ ds @ [u]) ''every '' = ds @ [u]"
proof -
  let ?l = "''every '' @ ds @ [u]"
  have "\<not> isSpace CHR ''e''"
    by (simp add: isSpace_def)
  then show "TrimSpace ?l = ?l"
    using u by (intro TrimSpace_id) (simp_all add: unit_facts)
  have "map lowerChar ds = ds"
    using ds by (intro map_idI) (simp add: digit_facts)
  moreover have "lowerChar CHR ''e'' = CHR ''e''" "lowerChar CHR ''v'' = CHR ''v''"
    "lowerChar CHR ''r'' = CHR ''r''" "lowerChar CHR ''y'' = CHR ''y''"
    "lowerChar CHR '' '' = CHR '' ''"
    by (simp_all add: lowerChar_def)
  ultimately show "ToLower ?l = ?l"
    using u by (simp add: ToLower_def unit_facts)
  have pre: "HasPrefix ?l ''every ''"
    by (simp add: HasPrefix_def)
  have suf: "HasSuffix ?l [u]"
    by (simp add: HasSuffix_def)
  have "\<not> isUnit CHR ''a''" and "\<not> isDigit CHR ''a''"
    by (simp_all add: isUnit_def isDigit_def)
  then have "CHR ''a'' \<notin> set ?l"
    using ds u by auto
  then have "\<not> set '' at '' \<subseteq> set ?l"
    by auto
  then have "Index ?l '' at '' = None"
    using Index_subset [of ?l "'' at ''"] by (cases "Index ?l '' at ''") auto
  then have nc: "\<not> Contains ?l '' at ''"
    by (simp add: Contains_def)
  show "isIntervalShape ?l"
    using pre suf nc u unfolding isIntervalShape_def isUnit_def by blast
  show "TrimPrefix ?l ''every '' = ds @ [u]"
    using pre by (simp add: TrimPrefix_def)
qed

text \<open>
  Claim C7, as the code has it. For every pure-interval expression \<open>every <N><unit>\<close>,
  \<open>N\<close> a non-empty string of decimal digits and the unit one of s, m, h, d, such that
  \<open>N \<cdot> unit\<close> is at most the largest \<open>time.Duration\<close> (\<open>2^63 - 1\<close> nanoseconds), and for
  every host and reference instant, \<open>NextRun\<close> returns exactly \<open>from + N \<cdot> unit\<close>, the
  unit \<open>d\<close> being 24 hours.
\<close>

theorem pure_interval_exact:
  assumes "ds \<noteq> []" and "\<forall>c\<in>set ds. isDigit c" and "isUnit u"
    and "decimal 0 ds * unitNanos u \<le> maxInt64"
  shows "NextRun H (''every '' @ ds @ [u]) from
    = Some (Inr (Add from (decimal 0 ds * unitNanos u)))"
  unfolding NextRun_def Let_def
  by (simp only: interval_shape [OF assms(1-3)] parseDur_interval [OF assms] if_True sum.case)

theorem pure_interval_exact_witness:
  "''5'' \<noteq> [] \<and> isDigit CHR ''5'' \<and> isUnit CHR ''m''
   \<and> decimal 0 ''5'' * unitNanos CHR ''m'' \<le> maxInt64
   \<and> NextRun utcHost ''every 5m'' saturday = Some (Inr (Add saturday (5 * Minute)))"
proof -
  have h: "''5'' \<noteq> []" "\<forall>c\<in>set ''5''. isDigit c" "isUnit CHR ''m''"
    "decimal 0 ''5'' * unitNanos CHR ''m'' \<le> maxInt64"
    by (simp_all add: isDigit_def isUnit_def digitVal_def unitNanos_def Minute_def Second_def
        maxInt64_def)
  show ?thesis
    using h pure_interval_exact [OF h, of utcHost saturday]
    by (simp add: digitVal_def unitNanos_def)
qed

text \<open>
  Claim C7 as stated fails for an interval beyond the range of \<open>time.Duration\<close>:
  \<open>every 9223372037s\<close> is a pure-interval expression, and \<open>NextRun\<close> returns the
  error of \<open>time.ParseDuration\<close> instead of \<open>from + 9223372037 seconds\<close>.
\<close>

theorem pure_interval_counterexample:
  "NextRun utcHost ''every 9223372037s'' saturday = Some (Inl (InvalidDuration ''9223372037s''))
   \<and> NextRun utcHost ''every 9223372037s'' saturday
       \<noteq> Some (Inr (Add saturday (9223372037 * Second)))"
  by code_simp


subsection \<open>Anchored intervals\<close>

lemma anchorLoop_some_after:
  assumes "anchorLoop d lim t = Some y"
  shows "d = 0 \<longrightarrow> After t lim"
proof (rule anchorLoop.raw_induct [OF _ assms, where P = "\<lambda>d lim t y. d = 0 \<longrightarrow> After t lim"])
  fix loop :: "int \<Rightarrow> Time \<Rightarrow> Time \<Rightarrow> Time option" and d lim t y
  assume ih: "\<And>d lim t y. loop d lim t = Some y \<Longrightarrow> d = 0 \<longrightarrow> After t lim"
    and st: "(if After t lim then Some t else loop d lim (Add t d)) = Some y"
  show "d = 0 \<longrightarrow> After t lim"
  proof (cases "After t lim")
    case True
    then show ?thesis by simp
  next
    case False
    then have "loop d lim (Add t d) = Some y"
      using st by simp
    then have "d = 0 \<longrightarrow> After (Add t d) lim"
      by (rule ih)
    then show ?thesis
      by (auto simp: Add_def After_def)
  qed
qed

lemma anchorLoop_zero_diverges: "\<not> After t lim \<Longrightarrow> anchorLoop 0 lim t = None"
  using anchorLoop_some_after [of 0 lim t] by (cases "anchorLoop 0 lim t") auto

text \<open>
  For a positive interval the loop does return: the anchor plus the least number of
  intervals that makes it strictly later than the reference instant.
\<close>

lemma anchorLoop_positive:
  assumes "0 < d"
  shows "\<exists>k. anchorLoop d lim t = Some (Add t (int k * d))
    \<and> After (Add t (int k * d)) lim
    \<and> (\<forall>i<k. \<not> After (Add t (int i * d)) lim)"
proof (induction "nat (wall lim - wall t + 1)" arbitrary: t rule: less_induct)
  case less
  show ?case
  proof (cases "After t lim")
    case True
    then have "anchorLoop d lim t = Some (Add t (int 0 * d))"
      by (subst anchorLoop.simps) (simp add: Add_def)
    moreover have "After (Add t (int 0 * d)) lim"
      using True by (simp add: Add_def After_def)
    ultimately show ?thesis
      by (intro exI [of _ 0]) simp
  next
    case False
    then have le: "wall t \<le> wall lim"
      by (simp add: After_def)
    have "nat (wall lim - wall (Add t d) + 1) < nat (wall lim - wall t + 1)"
      using assms le by (simp add: Add_def)
    then obtain k where k: "anchorLoop d lim (Add t d) = Some (Add (Add t d) (int k * d))"
      "After (Add (Add t d) (int k * d)) lim"
      "\<forall>i<k. \<not> After (Add (Add t d) (int i * d)) lim"
      using less [of "Add t d"] by blast
    have shift: "Add (Add t d) (int i * d) = Add t (int (Suc i) * d)" for i
      by (simp add: Add_def algebra_simps)
    have "anchorLoop d lim t = Some (Add t (int (Suc k) * d))"
      using False k(1) by (subst anchorLoop.simps) (simp add: shift)
    moreover have "After (Add t (int (Suc k) * d)) lim"
      using k(2) by (simp add: shift)
    moreover have "\<forall>i<Suc k. \<not> After (Add t (int i * d)) lim"
    proof (intro allI impI)
      fix i assume "i < Suc k"
      show "\<not> After (Add t (int i * d)) lim"
      proof (cases i)
        case 0
        then show ?thesis using False by (simp add: Add_def After_def)
      next
        case (Suc i')
        then have "i' < k" using \<open>i < Suc k\<close> by simp
        then show ?thesis using k(3) Suc by (simp add: shift)
      qed
    qed
    ultimately show ?thesis by blast
  qed
qed

text \<open>
  Claim C5, at the anchored interval \<open>every 0s starting at 00:00\<close> on a host in UTC,
  from Saturday 2024-01-06 08:00 UTC: the anchor (00:00 of that day) is not after the
  reference instant and adding the interval never moves it, so the loop never leaves
  and \<open>NextRun\<close> does not return.
\<close>

theorem anchored_zero_interval_diverges:
  "NextRun utcHost ''every 0s starting at 00:00'' saturday = None"
proof -
  let ?l = "''every 0s starting at 00:00''"
  have e1: "ToLower (TrimSpace ?l) = ?l" by code_simp
  have e2: "isIntervalShape ?l = False" by code_simp
  have e3: "isClockShape ?l = False" by code_simp
  have e4: "isAnchoredShape ?l = True" by code_simp
  have e5: "parseDur (fracNano utcHost) (TrimPrefix (fst (Cut ?l '' starting at '')) ''every '') = Inr 0"
    by code_simp
  have e6: "Fields (fst (snd (Cut ?l '' starting at ''))) = [''00:00'']" by code_simp
  have e7: "\<not> After (Date (localDay (In saturday (Local utcHost))) (parseHH ''00:00'')
      (parseMM ''00:00'') (Local utcHost)) (In saturday (Local utcHost))"
    by code_simp
  show ?thesis
    unfolding NextRun_def e1 Let_def e2 e3 e4 e5 e6
    by (simp add: anchorLoop_zero_diverges [OF e7])
qed

text \<open>
  How the two forms treat a zone name that \<open>time.LoadLocation\<close> rejects: every
  clock-time expression returns the error \<open>unknown TZ\<close>; every anchored-interval
  expression is computed as if the zone were the local one.
\<close>

lemma clock_unknown_zone_error:
  assumes "l = ToLower (TrimSpace expr)" and "\<not> isIntervalShape l" and "isClockShape l"
    and "Fields (if HasPrefix l ''every weekday at '' then TrimPrefix l ''every weekday at ''
                 else if HasPrefix l ''every day at '' then TrimPrefix l ''every day at ''
                 else TrimPrefix l ''at '') = hhmm # tz # rest"
    and "LoadLocation H tz = None"
  shows "NextRun H expr from = Some (Inl (UnknownTZ tz))"
  using assms(2-5) unfolding NextRun_def Let_def assms(1) [symmetric]
  by simp

lemma anchored_unknown_zone_local:
  assumes "l = ToLower (TrimSpace expr)" and "\<not> isIntervalShape l" and "\<not> isClockShape l"
    and "isAnchoredShape l"
    and "parseDur (fracNano H) (TrimPrefix (fst (Cut l '' starting at '')) ''every '') = Inr d"
    and "Fields (fst (snd (Cut l '' starting at ''))) = hhmm # tz # rest"
    and "LoadLocation H tz = None"
  shows "NextRun H expr from
    = map_option (\<lambda>t. Inr (In t (zone from)))
        (anchorLoop d (In from (Local H))
           (Date (localDay (In from (Local H))) (parseHH hhmm) (parseMM hhmm) (Local H)))"
  using assms(2-7) unfolding NextRun_def Let_def assms(1) [symmetric]
  by simp

text \<open>
  Claim C6, at a zone name that the zone database does not know: the anchored-interval
  form returns an instant, computed in the local zone, and no error, while the
  clock-time form with the same zone name returns the error \<open>unknown TZ\<close>.
\<close>

theorem unknown_zone_anchored_no_error:
  "NextRun utcHost ''every 6h starting at 00:00 Mars/Phobos'' saturday
     = Some (Inr \<lparr>wall = 1704542400 * Second, zone = UTC\<rparr>)
   \<and> LoadLocation utcHost ''mars/phobos'' = None
   \<and> NextRun utcHost ''every day at 00:00 Mars/Phobos'' saturday
     = Some (Inl (UnknownTZ ''mars/phobos''))"
  by code_simp

subsection \<open>Clock times\<close>

text \<open>
  In a zone whose offset never changes, \<open>nextAtTime\<close> returns, for either form, an
  instant strictly after the reference instant, in the zone of the reference instant,
  whose clock reading in the target zone is HH:MM, and which falls on Monday to Friday
  when the form is restricted to weekdays; the weekday loop leaves after at most two
  steps.
\<close>

lemma Add_zero: "Add t 0 = t"
  by (simp add: Add_def)

lemma lookup_fixed: "lookup (Location n off []) sec = (off, minInt64, maxInt64)"
  by (simp add: lookup_def)

lemma Date_fixed:
  "Date day h m (Location n off [])
     = \<lparr>wall = (day * 86400 + h * 3600 + m * 60 - off) * 1000000000, zone = Location n off []\<rparr>"
  by (simp add: Date_def lookup_fixed Let_def)

lemma localSec_fixed:
  "zone t = Location n off [] \<Longrightarrow> localSec t = wall t div 1000000000 + off"
  by (simp add: localSec_def unixSec_def lookup_fixed)

lemma day_shift: "(x + 86400000000000) div 1000000000 = x div 1000000000 + (86400::int)"
proof -
  have "x + 86400000000000 = x + 86400 * 1000000000" by simp
  then show ?thesis by simp
qed

lemma localDay_next:
  assumes "zone t = Location n off []"
  shows "localDay (Add t (24 * Hour)) = localDay t + 1"
proof -
  have z: "zone (Add t (24 * Hour)) = Location n off []"
    using assms by (simp add: Add_def)
  have w: "wall (Add t (24 * Hour)) = wall t + 86400000000000"
    by (simp add: Add_def Hour_def Minute_def Second_def)
  have "localSec (Add t (24 * Hour)) = wall (Add t (24 * Hour)) div 1000000000 + off"
    using z by (rule localSec_fixed)
  also have "\<dots> = wall t div 1000000000 + 86400 + off"
    by (simp only: w day_shift)
  also have "\<dots> = localSec t + 86400"
    by (simp add: localSec_fixed [OF assms])
  finally have "localSec (Add t (24 * Hour)) = localSec t + 86400" .
  then show ?thesis
    by (simp add: localDay_def)
qed

lemma Weekday_next:
  assumes "zone t = Location n off []"
  shows "Weekday (Add t (24 * Hour)) = (Weekday t + 1) mod 7"
  by (simp add: Weekday_def localDay_next [OF assms] mod_simps add.commute add.left_commute)

lemma Weekday_range: "0 \<le> Weekday t \<and> Weekday t \<le> 6"
  by (simp add: Weekday_def)

lemma weekdayLoop_unfold:
  "weekdayLoop c = (if isWeekday c then Some c else weekdayLoop (Add c (24 * Hour)))"
  by (subst weekdayLoop.simps) (simp add: isWeekday_def)

lemma weekdayLoop_stop: "isWeekday c \<Longrightarrow> weekdayLoop c = Some c"
  by (subst weekdayLoop_unfold) simp

lemma weekdayLoop_step: "\<not> isWeekday c \<Longrightarrow> weekdayLoop c = weekdayLoop (Add c (24 * Hour))"
  by (subst weekdayLoop_unfold) simp

lemma weekdayLoop_fixed:
  assumes "zone c = Location n off []"
  shows "\<exists>k\<le>2. weekdayLoop c = Some (Add c (int k * (24 * Hour)))
     \<and> isWeekday (Add c (int k * (24 * Hour)))
     \<and> (\<forall>i<k. \<not> isWeekday (Add c (int i * (24 * Hour))))"
proof -
  let ?c1 = "Add c (24 * Hour)"
  let ?c2 = "Add ?c1 (24 * Hour)"
  have z1: "zone ?c1 = Location n off []"
    using assms by (simp add: Add_def)
  have a0: "Add c (int 0 * (24 * Hour)) = c"
    by (simp add: Add_def)
  have a1: "Add c (int 1 * (24 * Hour)) = ?c1"
    by simp
  have a2: "Add c (int 2 * (24 * Hour)) = ?c2"
    by (simp add: Add_def)
  have w1: "Weekday ?c1 = (Weekday c + 1) mod 7"
    using assms by (rule Weekday_next)
  have w2: "Weekday ?c2 = (Weekday ?c1 + 1) mod 7"
    using z1 by (rule Weekday_next)
  have "isWeekday c \<or> Weekday c = 0 \<or> Weekday c = 6"
    using Weekday_range [of c] unfolding isWeekday_def by linarith
  then consider "isWeekday c" | "Weekday c = 0" | "Weekday c = 6"
    by blast
  then show ?thesis
  proof cases
    case 1
    then have "weekdayLoop c = Some c"
      by (rule weekdayLoop_stop)
    then show ?thesis
      using 1 by (intro exI [of _ 0]) (simp add: Add_zero)
  next
    case 2
    then have n0: "\<not> isWeekday c" and y1: "isWeekday ?c1"
      by (simp_all add: isWeekday_def w1)
    have "weekdayLoop c = Some ?c1"
      by (simp only: weekdayLoop_step [OF n0] weekdayLoop_stop [OF y1])
    then show ?thesis
      using n0 y1 by (intro exI [of _ 1]) (simp add: Add_zero)
  next
    case 3
    then have n0: "\<not> isWeekday c" and n1: "\<not> isWeekday ?c1" and y2: "isWeekday ?c2"
      by (simp_all add: isWeekday_def w1 w2)
    have l: "weekdayLoop c = Some ?c2"
      by (simp only: weekdayLoop_step [OF n0] weekdayLoop_step [OF n1] weekdayLoop_stop [OF y2])
    have "\<forall>i<2. \<not> isWeekday (Add c (int i * (24 * Hour)))"
    proof (intro allI impI)
      fix i :: nat assume "i < 2"
      then consider "i = 0" | "i = 1" by linarith
      then show "\<not> isWeekday (Add c (int i * (24 * Hour)))"
        using n0 n1 by cases (simp_all add: Add_zero)
    qed
    moreover have "Add (Add c (24 * Hour)) (24 * Hour) = Add c (48 * Hour)"
      by (simp add: Add_def)
    ultimately show ?thesis
      using l y2 by (intro exI [of _ 2]) simp
  qed
qed


lemma parseHH_range: "0 \<le> parseHH s \<and> parseHH s \<le> 23"
  by (simp add: parseHH_def Let_def)

lemma parseMM_range: "0 \<le> parseMM s \<and> parseMM s \<le> 59"
  by (simp add: parseMM_def Let_def)

lemma days_shift:
  "(x + int k * 86400000000000) div 1000000000 = x div 1000000000 + int k * (86400::int)"
proof -
  have "x + int k * 86400000000000 = x + (int k * 86400) * 1000000000" by simp
  then show ?thesis by (simp only: div_mult_self1)
qed

lemma localSec_Add_days:
  assumes "zone c = Location n off []"
  shows "localSec (Add c (int k * (24 * Hour))) = localSec c + int k * 86400"
proof -
  have z: "zone (Add c (int k * (24 * Hour))) = Location n off []"
    using assms by (simp add: Add_def)
  have w: "wall (Add c (int k * (24 * Hour))) = wall c + int k * 86400000000000"
    by (simp add: Add_def Hour_def Minute_def Second_def)
  have "localSec (Add c (int k * (24 * Hour)))
      = wall (Add c (int k * (24 * Hour))) div 1000000000 + off"
    using z by (rule localSec_fixed)
  also have "\<dots> = wall c div 1000000000 + int k * 86400 + off"
    by (simp only: w days_shift)
  also have "\<dots> = localSec c + int k * 86400"
    by (simp add: localSec_fixed [OF assms])
  finally show ?thesis .
qed

lemma below_next_multiple:
  fixes x b :: int
  assumes "0 < b"
  shows "x < (x div b + 1) * b"
proof -
  have "x mod b < b"
    using assms by simp
  moreover have "x = x div b * b + x mod b"
    by simp
  ultimately have "x < x div b * b + b"
    by linarith
  then show ?thesis
    by (simp add: algebra_simps)
qed

lemma div_less_imp_less_mult:
  fixes x b k :: int
  assumes "0 < b" and "x div b < k"
  shows "x < k * b"
proof -
  have "x div b + 1 \<le> k"
    using assms(2) by simp
  then have "(x div b + 1) * b \<le> k * b"
    using assms(1) by (intro mult_right_mono) simp_all
  then show ?thesis
    using below_next_multiple [OF assms(1), of x] by linarith
qed

lemma nextAtTime_fixed:
  assumes l: "l = Location n off []"
  shows "\<exists>r. nextAtTime from hhmm l weekdayOnly = Some r
     \<and> zone r = zone from
     \<and> After r from
     \<and> localSec (In r l) mod 86400 = parseHH hhmm * 3600 + parseMM hhmm * 60
     \<and> (weekdayOnly \<longrightarrow> isWeekday (In r l))"
proof -
  define hm where "hm = parseHH hhmm * 3600 + parseMM hhmm * 60"
  define day where "day = localDay (In from l)"
  define cand where "cand = Date day (parseHH hhmm) (parseMM hhmm) l"
  define cand1 where "cand1 = (if \<not> After cand (In from l) then Add cand (24 * Hour) else cand)"
  have hm: "0 \<le> hm" "hm < 86400"
    using parseHH_range [of hhmm] parseMM_range [of hhmm] by (simp_all add: hm_def)
  have wc: "wall cand = (day * 86400 + hm - off) * 1000000000" and zc: "zone cand = l"
    by (simp_all add: cand_def l Date_fixed hm_def)
  have lc: "localSec cand = day * 86400 + hm"
    using zc by (simp add: localSec_fixed [of cand n off] l wc)
  have z1: "zone cand1 = Location n off []"
    using zc by (simp add: cand1_def Add_def l)
  \<comment> \<open>the candidate, advanced or not, is strictly after the reference instant\<close>
  have "zone (In from l) = Location n off []" and "wall (In from l) = wall from"
    by (simp_all add: In_def l)
  then have "localSec (In from l) = wall from div 1000000000 + off"
    using localSec_fixed [of "In from l" n off] by simp
  then have dl: "day = (wall from div 1000000000 + off) div 86400"
    by (simp add: day_def localDay_def)
  have "wall from div 1000000000 + off < (day + 1) * 86400"
    unfolding dl by (rule below_next_multiple) simp
  then have "wall from div 1000000000 < day * 86400 + 86400 - off"
    by (simp add: algebra_simps)
  then have "wall from < (day * 86400 + 86400 - off) * 1000000000"
    by (intro div_less_imp_less_mult) simp_all
  also have "\<dots> \<le> (day * 86400 + hm - off + 86400) * 1000000000"
    using hm(1) by simp
  finally have "wall from < (day * 86400 + hm - off + 86400) * 1000000000" .
  then have "wall from < wall (Add cand (24 * Hour))"
    by (simp add: Add_def wc Hour_def Minute_def Second_def)
  then have a1: "After cand1 from"
    by (simp add: cand1_def After_def In_def)
  \<comment> \<open>its clock reading is HH:MM\<close>
  have m0: "(day * 86400 + hm) mod 86400 = hm"
    using hm by (simp add: mod_pos_pos_trivial)
  have m1: "(day * 86400 + hm + 86400) mod 86400 = hm"
    using hm by (simp add: mod_pos_pos_trivial)
  have "localSec (Add cand (24 * Hour)) = localSec cand + 86400"
    using localSec_Add_days [of cand n off 1] zc l by simp
  moreover have "hm mod 86400 = hm"
    using hm by (simp add: mod_pos_pos_trivial)
  ultimately have c1: "localSec cand1 mod 86400 = hm"
    by (simp add: cand1_def lc)
  \<comment> \<open>the weekday loop\<close>
  obtain r0 where r0: "(if weekdayOnly then weekdayLoop cand1 else Some cand1) = Some r0"
    "zone r0 = l" "After r0 from" "localSec r0 mod 86400 = hm" "weekdayOnly \<longrightarrow> isWeekday r0"
  proof (cases weekdayOnly)
    case False
    then show ?thesis
      using that [of cand1] z1 a1 c1 l by simp
  next
    case True
    obtain k where k: "weekdayLoop cand1 = Some (Add cand1 (int k * (24 * Hour)))"
      "isWeekday (Add cand1 (int k * (24 * Hour)))"
      using weekdayLoop_fixed [OF z1] by blast
    have "wall cand1 \<le> wall (Add cand1 (int k * (24 * Hour)))"
      by (simp add: Add_def Hour_def Minute_def Second_def)
    then have "After (Add cand1 (int k * (24 * Hour))) from"
      using a1 by (simp add: After_def)
    moreover have "localSec (Add cand1 (int k * (24 * Hour))) mod 86400 = hm"
      using c1 by (simp add: localSec_Add_days [OF z1])
    moreover have "zone (Add cand1 (int k * (24 * Hour))) = l"
      using z1 by (simp add: Add_def l)
    ultimately show ?thesis
      using that [of "Add cand1 (int k * (24 * Hour))"] k True by simp
  qed
  have inback: "In (In r0 (zone from)) l = r0"
    using r0(2) by (simp add: In_def)
  have "nextAtTime from hhmm l weekdayOnly
      = map_option (\<lambda>c. In c (zone from)) (if weekdayOnly then weekdayLoop cand1 else Some cand1)"
    by (simp add: nextAtTime_def Let_def cand1_def cand_def day_def)
  then have "nextAtTime from hhmm l weekdayOnly = Some (In r0 (zone from))"
    by (simp only: r0(1) option.map)
  moreover have "After (In r0 (zone from)) from"
    using r0(3) by (simp add: After_def In_def)
  moreover have "zone (In r0 (zone from)) = zone from"
    by (simp add: In_def)
  ultimately show ?thesis
    using r0(4,5) by (auto simp: inback hm_def)
qed

text \<open>
  On the day on which Europe/Paris leaves summer time (25 hours long), the candidate
  for \<open>at 00:00\<close> advanced by 24 hours is 23:00 of the same day: from 23:30 local time
  the clock-time form returns an instant before the reference instant.
\<close>

lemma clock_time_not_after_example:
  "NextRun parisHost ''at 00:00'' \<lparr>wall = 1730068200 * Second, zone = paris\<rparr>
     = Some (Inr \<lparr>wall = 1730066400 * Second, zone = paris\<rparr>)"
  by code_simp

lemma weekday_utc_example:
  "NextRun utcHost ''every weekday at 08:00'' saturday
     = Some (Inr \<lparr>wall = 1704700800 * Second, zone = UTC\<rparr>)"
  by code_simp

text \<open>
  Claim C8, at \<open>every weekday at 08:00\<close> on a host whose local zone is Europe/Paris,
  from Saturday 2024-03-30 08:00 local time: the candidate is advanced twice by 24
  hours, across the change to summer time of Sunday 2024-03-31, and \<open>NextRun\<close> returns
  Monday 2024-04-01 09:00 local time (07:00 UTC), not Monday 08:00 local time (06:00
  UTC), which is what \<open>time.Date\<close> gives for 08:00 two calendar days later.
\<close>

theorem weekday_across_dst:
  "NextRun parisHost ''every weekday at 08:00'' parisSaturday
     = Some (Inr \<lparr>wall = 1711954800 * Second, zone = paris\<rparr>)
   \<and> Date (localDay parisSaturday + 2) 8 0 paris = \<lparr>wall = 1711951200 * Second, zone = paris\<rparr>
   \<and> Date (localDay parisSaturday) 8 0 paris = parisSaturday
   \<and> Weekday parisSaturday = 6"
  by code_simp

end
